theory Spec2Isabelle
  imports Complex_Main
begin

section \<open>The wind mover of lib\_gnome: data model\<close>

text \<open>
  A shallow embedding of \<^verbatim>\<open>src/lib_gnome/WindMover_c.cpp\<close>, read with the
  \<^verbatim>\<open>pyGNOME\<close> macro defined (the only configuration in which \<^verbatim>\<open>get_move\<close> and
  the grow path of \<^verbatim>\<open>UpdateUncertainty\<close> are meaningful).

  Conventions of the model.
  \<^item> \<^verbatim>\<open>float\<close> and \<^verbatim>\<open>double\<close> values are real numbers: the rounding of machine
    arithmetic is not modelled, \<^verbatim>\<open>pow\<close> is \<open>powr\<close>, \<^verbatim>\<open>PI\<close> is \<open>pi\<close>.
  \<^item> \<^verbatim>\<open>Seconds\<close> (an unsigned integer) and the element counts of handles are natural
    numbers; the only subtraction on \<^verbatim>\<open>Seconds\<close> in the file is guarded by
    \<^verbatim>\<open>elapsedTime >= fUncertainStartTime\<close>.
  \<^item> A handle is an optional list: \<open>None\<close> is the nil handle, \<open>Some xs\<close> a handle whose
    size in elements is \<open>length xs\<close>.
  \<^item> A pointer argument that the code tests against null is an optional list, its element
    count a separate argument, as in the source. The pair
    \<^verbatim>\<open>(int numLESets, int* LESetsSizesList)\<close>, whose pointer is never tested, is one list
    whose length is \<^verbatim>\<open>numLESets\<close>.
  \<^item> Behaviour that C++ leaves undefined (a read through a null pointer or past the end
    of an array) is the result \<open>None\<close> of the functions that can reach it.
  \<^item> \<^verbatim>\<open>_SetHandleSize\<close>, whose outcome the code never tests, always succeeds; the
    arrays passed to \<^verbatim>\<open>get_move\<close> do not overlap.
  \<^item> Everything the file uses but does not define is collected in the record
    \<open>externals\<close> and passed as the first argument.
\<close>

record LEWindUncertainRec =
  randCos :: real
  randSin :: real

record VelocityRec =
  u :: real
  v :: real

record WorldPoint =
  pLong :: real
  pLat :: real

record WorldPoint3D =
  p :: WorldPoint
  z :: real

text \<open>Of the fields of \<^verbatim>\<open>LERec\<close> the file reads \<^verbatim>\<open>p\<close>, \<^verbatim>\<open>z\<close> and \<^verbatim>\<open>windage\<close>.\<close>

record LERec = WorldPoint3D +
  windage :: real

text \<open>
  The result codes the file returns: \<^verbatim>\<open>noErr\<close> (0), 1 and 2 from \<^verbatim>\<open>get_move\<close>,
  -1 from the uncertainty routines, and \<^verbatim>\<open>memFullErr\<close>. They carry the names the
  specification gives them.
\<close>

datatype OSErr =
    noErr
  | InvalidArgument
  | InvalidPopulationTag
  | InconsistentState
  | memFullErr

text \<open>
  What the file takes from elsewhere:
  \<^item> \<open>GetRandomFloat lo hi k\<close>: the value returned by the \<open>k\<close>-th call of the global random
    generator when asked for a float between \<open>lo\<close> and \<open>hi\<close>;
  \<^item> \<open>NewHandle_ok k\<close>: whether the \<open>k\<close>-th \<^verbatim>\<open>_NewHandle\<close> of an
    \<^verbatim>\<open>AllocateUncertainty\<close> call succeeds (0 the offset table, 1 the draw array);
  \<^item> \<open>uninitialised\<close>: the content of a freshly obtained draw record, which the memory
    manager does not initialise;
  \<^item> the constant \<^verbatim>\<open>METERSPERDEGREELAT\<close> and the function \<^verbatim>\<open>LongToLatRatio3\<close>;
  \<^item> the values of the enumerators \<^verbatim>\<open>OILSTAT_INWATER\<close>, \<^verbatim>\<open>OILSTAT_TO_BE_REMOVED\<close>,
    \<^verbatim>\<open>FORECAST_LE\<close> and \<^verbatim>\<open>UNCERTAINTY_LE\<close>, declared in headers that are not under
    \<^verbatim>\<open>src/\<close>.
\<close>

record externals =
  GetRandomFloat :: "real \<Rightarrow> real \<Rightarrow> nat \<Rightarrow> real"
  NewHandle_ok :: "nat \<Rightarrow> bool"
  uninitialised :: LEWindUncertainRec
  METERSPERDEGREELAT :: real
  LongToLatRatio3 :: "real \<Rightarrow> real"
  OILSTAT_INWATER :: int
  OILSTAT_TO_BE_REMOVED :: int
  FORECAST_LE :: int
  UNCERTAINTY_LE :: int

text \<open>
  The fields of \<^verbatim>\<open>WindMover_c\<close> that the modelled functions read or write, and
  \<open>randPos\<close>, the number of calls made so far to the global random generator.
\<close>

record wind_mover =
  fUncertainStartTime :: nat
  fDuration :: real
  fTimeUncertaintyWasSet :: nat
  fWindUncertaintyList :: "LEWindUncertainRec list option"
  fLESetSizes :: "nat list option"
  fSpeedScale :: real
  fAngleScale :: real
  fMaxSpeed :: real
  fMaxAngle :: real
  fSigma2 :: real
  fSigmaTheta :: real
  fUncertaintyDiffusion :: real
  current_time_value :: VelocityRec
  randPos :: nat

section \<open>The perturbation sampler\<close>

text \<open>\<^verbatim>\<open>rndv\<close>: two calls of the generator, in the order of the two statements.\<close>

definition rndv :: "externals \<Rightarrow> wind_mover \<Rightarrow> (real \<times> real) \<times> wind_mover" where
  "rndv ext st =
     (let cosArg = 2 * pi * GetRandomFloat ext 0 1 (randPos st);
          srt = sqrt (- 2 * ln (GetRandomFloat ext 0.001 0.999 (randPos st + 1)))
      in ((srt * cos cosArg, srt * sin cosArg), st\<lparr>randPos := randPos st + 2\<rparr>))"

text \<open>
  \<^verbatim>\<open>TermsLessThanMax\<close>: of its six arguments only \<^verbatim>\<open>sinTerm\<close>, \<^verbatim>\<open>angleMax\<close> and
  \<^verbatim>\<open>sigmaTheta\<close> are used; \<^verbatim>\<open>abs\<close> is the absolute value of the product, a double.
\<close>

definition TermsLessThanMax :: "real \<Rightarrow> real \<Rightarrow> real \<Rightarrow> real \<Rightarrow> real \<Rightarrow> real \<Rightarrow> bool" where
  "TermsLessThanMax cosTerm sinTerm speedMax angleMax sigma2 sigmaTheta =
     (\<bar>sigmaTheta * sinTerm\<bar> \<le> angleMax)"

text \<open>
  The loop \<^verbatim>\<open>for(j=0;j<10;j++) { if(TermsLessThanMax(...)) break; rndv(...); }\<close>,
  by the number of iterations that remain; it starts from the pair drawn before it.
\<close>

fun redraw :: "externals \<Rightarrow> nat \<Rightarrow> (real \<times> real) \<times> wind_mover \<Rightarrow> (real \<times> real) \<times> wind_mover" where
  "redraw ext 0 d = d"
| "redraw ext (Suc r) ((cosTerm, sinTerm), st) =
     (if TermsLessThanMax cosTerm sinTerm (fMaxSpeed st) (fMaxAngle st) (fSigma2 st) (fSigmaTheta st)
      then ((cosTerm, sinTerm), st)
      else redraw ext r (rndv ext st))"

text \<open>
  The bounded draw that \<^verbatim>\<open>UpdateUncertaintyValues\<close> (lines 145 to 151) and the grow
  path of \<^verbatim>\<open>UpdateUncertainty\<close> (lines 297 to 303) both write out: one \<^verbatim>\<open>rndv\<close>,
  then the loop above.
\<close>

definition sampleBounded :: "externals \<Rightarrow> wind_mover \<Rightarrow> (real \<times> real) \<times> wind_mover" where
  "sampleBounded ext st = redraw ext 10 (rndv ext st)"

text \<open>
  The loop \<^verbatim>\<open>for(i = i0; i < i0 + k; i++)\<close> that stores one bounded draw in each
  element of the draw array.
\<close>

fun fill_draws :: "externals \<Rightarrow> nat \<Rightarrow> nat \<Rightarrow> wind_mover \<Rightarrow> wind_mover" where
  "fill_draws ext i 0 st = st"
| "fill_draws ext i (Suc k) st =
     (case sampleBounded ext st of
        ((cosTerm, sinTerm), st') \<Rightarrow>
          fill_draws ext (Suc i) k
            (st'\<lparr>fWindUncertaintyList :=
                   map_option (\<lambda>xs. xs[i := \<lparr>randCos = cosTerm, randSin = sinTerm\<rparr>])
                     (fWindUncertaintyList st')\<rparr>))"

section \<open>The uncertainty store\<close>

definition DisposeUncertainty :: "wind_mover \<Rightarrow> wind_mover" where
  "DisposeUncertainty st =
     st\<lparr>fTimeUncertaintyWasSet := 0, fWindUncertaintyList := None, fLESetSizes := None\<rparr>"

definition UpdateUncertaintyValues :: "externals \<Rightarrow> nat \<Rightarrow> wind_mover \<Rightarrow> wind_mover" where
  "UpdateUncertaintyValues ext elapsedTime st =
     (let st1 = st\<lparr>fTimeUncertaintyWasSet := elapsedTime\<rparr>
      in case fWindUncertaintyList st1 of
           None \<Rightarrow> st1
         | Some xs \<Rightarrow> fill_draws ext 0 (length xs) st1)"

text \<open>
  The compaction loop of \<^verbatim>\<open>ReallocateUncertainty\<close>: \<open>i\<close> is the read index,
  \<open>numrec\<close> the write index, the list of status codes is what is left to read. It returns
  the array and the final \<open>numrec\<close>.
\<close>

fun compact_draws :: "externals \<Rightarrow> int list \<Rightarrow> nat \<Rightarrow> nat \<Rightarrow> LEWindUncertainRec list \<Rightarrow> LEWindUncertainRec list \<times> nat" where
  "compact_draws ext [] i numrec xs = (xs, numrec)"
| "compact_draws ext (c # cs) i numrec xs =
     (if c = OILSTAT_TO_BE_REMOVED ext then compact_draws ext cs (Suc i) numrec xs
      else compact_draws ext cs (Suc i) (Suc numrec) (xs[numrec := xs ! i]))"

text \<open>
  \<^verbatim>\<open>_SetHandleSize\<close> to \<open>n\<close> elements: the leading elements are kept, and what is added
  is not initialised.
\<close>

definition SetHandleSize :: "externals \<Rightarrow> nat \<Rightarrow> LEWindUncertainRec list \<Rightarrow> LEWindUncertainRec list" where
  "SetHandleSize ext n xs = take n xs @ replicate (n - length xs) (uninitialised ext)"

definition ReallocateUncertainty :: "externals \<Rightarrow> int \<Rightarrow> int list option \<Rightarrow> wind_mover \<Rightarrow> (OSErr \<times> wind_mover) option" where
  "ReallocateUncertainty ext numLEs statusCodes st =
     (case statusCodes of
        None \<Rightarrow> Some (InconsistentState, st)
      | Some codes \<Rightarrow>
          if numLEs = 0 then Some (InconsistentState, st)
          else (case (fWindUncertaintyList st, fLESetSizes st) of
              (Some xs, Some offs) \<Rightarrow>
                if int (length xs) \<noteq> numLEs then Some (InconsistentState, st)
                else if length offs \<noteq> 1 then Some (InconsistentState, st)
                else if length codes < length xs then None
                else (case compact_draws ext (take (length xs) codes) 0 0 xs of
                        (ys, numrec) \<Rightarrow>
                          if numrec = 0
                          then Some (noErr, DisposeUncertainty (st\<lparr>fWindUncertaintyList := Some ys\<rparr>))
                          else if numrec < length xs
                          then Some (noErr, st\<lparr>fWindUncertaintyList := Some (SetHandleSize ext numrec ys)\<rparr>)
                          else Some (noErr, st\<lparr>fWindUncertaintyList := Some ys\<rparr>))
            | _ \<Rightarrow> Some (noErr, st)))"

text \<open>
  The loop of \<^verbatim>\<open>AllocateUncertainty\<close> that stores the running total before each set and
  adds the set's size: it returns the offsets and the total.
\<close>

fun offsets :: "nat \<Rightarrow> nat list \<Rightarrow> nat list \<times> nat" where
  "offsets numrec [] = ([], numrec)"
| "offsets numrec (s # ss) = (case offsets (numrec + s) ss of (os, n) \<Rightarrow> (numrec # os, n))"

definition AllocateUncertainty :: "externals \<Rightarrow> nat list \<Rightarrow> wind_mover \<Rightarrow> OSErr \<times> wind_mover" where
  "AllocateUncertainty ext LESetsSizesList st =
     (let st1 = DisposeUncertainty st
      in if length LESetsSizesList = 0 then (InconsistentState, st1)
         else if \<not> NewHandle_ok ext 0 then (memFullErr, DisposeUncertainty st1)
         else (case offsets 0 LESetsSizesList of
                 (offs, numrec) \<Rightarrow>
                   let st2 = st1\<lparr>fLESetSizes := Some offs\<rparr>
                   in if \<not> NewHandle_ok ext 1 then (memFullErr, DisposeUncertainty st2)
                      else (noErr, st2\<lparr>fWindUncertaintyList := Some (replicate numrec (uninitialised ext))\<rparr>)))"

section \<open>The scheduler\<close>

text \<open>
  The loop of \<^verbatim>\<open>UpdateUncertainty\<close> (lines 260 to 267) that compares each stored offset
  with the running total of the target sizes and leaves at the first difference: it
  returns whether it left early, and \<^verbatim>\<open>numrec\<close> as the loop leaves it. The two lists have
  the same length where it is called.
\<close>

fun compare_sets :: "nat \<Rightarrow> nat list \<Rightarrow> nat list \<Rightarrow> bool \<times> nat" where
  "compare_sets numrec (off # offs) (s # ss) =
     (if numrec \<noteq> off then (True, numrec) else compare_sets (numrec + s) offs ss)"
| "compare_sets numrec _ _ = (False, numrec)"

text \<open>
  Lines 244 to 281: the values of \<^verbatim>\<open>needToReInit\<close>, \<^verbatim>\<open>needToReAllocate\<close>,
  \<^verbatim>\<open>numrec\<close> and \<^verbatim>\<open>uncertListSize\<close> when the grow block is reached. With a stored
  offset table and a nil draw array of the same number of sets, the code asks the size of
  a nil handle: the result is \<open>None\<close>.
\<close>

definition reinit_flags :: "nat \<Rightarrow> nat list \<Rightarrow> wind_mover \<Rightarrow> (bool \<times> bool \<times> nat \<times> nat) option" where
  "reinit_flags elapsedTime LESetsSizesList st =
     (let needToReInit =
            ((fWindUncertaintyList st = None \<or> fLESetSizes st = None)
             \<or> elapsedTime < fTimeUncertaintyWasSet st)
      in case fLESetSizes st of
           None \<Rightarrow> Some (needToReInit, False, 0, 0)
         | Some offs \<Rightarrow>
             if length LESetsSizesList \<noteq> length offs then Some (True, False, 0, 0)
             else (case fWindUncertaintyList st of
                     None \<Rightarrow> None
                   | Some xs \<Rightarrow>
                       (case compare_sets 0 offs LESetsSizesList of
                          (differs, numrec) \<Rightarrow>
                            if numrec \<noteq> length xs
                            then (if numrec > length xs
                                  then Some (needToReInit \<or> differs, True, numrec, length xs)
                                  else Some (True, False, numrec, length xs))
                            else Some (needToReInit \<or> differs, False, numrec, length xs))))"

text \<open>Lines 313 to 316: the two spreads, from the elapsed time of the step.\<close>

definition update_sigmas :: "nat \<Rightarrow> wind_mover \<Rightarrow> wind_mover" where
  "update_sigmas elapsedTime st =
     (let s = fSpeedScale st * 0.315 * (real (elapsedTime - fUncertainStartTime st) powr 0.147)
      in st\<lparr>fSigma2 := s * s / 2,
            fSigmaTheta := fAngleScale st * 2.73 * sqrt (sqrt (real (elapsedTime - fUncertainStartTime st)))\<rparr>)"

text \<open>Lines 311 to 328: what follows the grow block.\<close>

definition finish_update :: "externals \<Rightarrow> nat \<Rightarrow> nat list \<Rightarrow> bool \<Rightarrow> wind_mover \<Rightarrow> OSErr \<times> wind_mover" where
  "finish_update ext elapsedTime LESetsSizesList needToReInit st =
     (let st1 = update_sigmas elapsedTime st
      in if needToReInit
         then (case AllocateUncertainty ext LESetsSizesList st1 of
                 (err, st2) \<Rightarrow>
                   if err = noErr then (noErr, UpdateUncertaintyValues ext elapsedTime st2)
                   else (err, st2))
         else if real elapsedTime \<ge> real (fTimeUncertaintyWasSet st1) + fDuration st1
         then (noErr, UpdateUncertaintyValues ext elapsedTime st1)
         else (noErr, st1))"

definition UpdateUncertainty :: "externals \<Rightarrow> nat \<Rightarrow> nat list \<Rightarrow> wind_mover \<Rightarrow> (OSErr \<times> wind_mover) option" where
  "UpdateUncertainty ext elapsedTime LESetsSizesList st =
     (if \<not> elapsedTime \<ge> fUncertainStartTime st
      then Some (noErr, if fWindUncertaintyList st \<noteq> None then DisposeUncertainty st else st)
      else (case reinit_flags elapsedTime LESetsSizesList st of
              None \<Rightarrow> None
            | Some (needToReInit, needToReAllocate, numrec, uncertListSize) \<Rightarrow>
                if needToReAllocate
                then (let st1 = st\<lparr>fWindUncertaintyList :=
                                     map_option (SetHandleSize ext numrec) (fWindUncertaintyList st)\<rparr>
                      in if length LESetsSizesList \<noteq> 1 then Some (InconsistentState, st1)
                         else if map_option length (fLESetSizes st) \<noteq> Some 1
                         then Some (InconsistentState, st1)
                         else Some (finish_update ext elapsedTime LESetsSizesList needToReInit
                                      (fill_draws ext uncertListSize (numrec - uncertListSize) st1)))
                else Some (finish_update ext elapsedTime LESetsSizesList needToReInit st)))"

section \<open>The displacement of one element\<close>

definition AddUncertainty :: "externals \<Rightarrow> int \<Rightarrow> int \<Rightarrow> VelocityRec \<Rightarrow> wind_mover \<Rightarrow> (VelocityRec \<times> wind_mover) option" where
  "AddUncertainty ext setIndex leIndex patVel st =
     (case (fWindUncertaintyList st, fLESetSizes st) of
        (Some xs, Some offs) \<Rightarrow>
          (let norm = sqrt (v patVel * v patVel + u patVel * u patVel)
           in if norm < 1
              then (let rand1 = GetRandomFloat ext (- 1) 1 (randPos st);
                        rand2 = GetRandomFloat ext (- 1) 1 (randPos st + 1)
                    in Some (\<lparr>u = u patVel + fUncertaintyDiffusion st * rand1,
                              v = v patVel + fUncertaintyDiffusion st * rand2\<rparr>,
                             st\<lparr>randPos := randPos st + 2\<rparr>))
              else if setIndex < 0 \<or> int (length offs) \<le> setIndex then None
              else (let idx = int (offs ! nat setIndex) + leIndex
                    in if idx < 0 \<or> int (length xs) \<le> idx then None
                       else (let unrec = xs ! nat idx;
                                 w = norm;
                                 s = w * w - fSigma2 st;
                                 sqs = (if s > 0 then sqrt s else 0);
                                 m = (if s > 0 then sqrt sqs else 0);
                                 s' = sqrt (w - sqs);
                                 x = randCos unrec * s' + m;
                                 w' = x * x;
                                 dtheta = randSin unrec * fSigmaTheta st * pi / 180;
                                 costheta = cos dtheta;
                                 sintheta = sin dtheta;
                                 w'' = w' / (if costheta < 0.001 then 0.001 else costheta);
                                 t = w'' / norm;
                                 tempV = \<lparr>u = u patVel * t, v = v patVel * t\<rparr>
                             in Some (\<lparr>u = u tempV * costheta - v tempV * sintheta,
                                       v = v tempV * costheta + u tempV * sintheta\<rparr>, st))))
      | _ \<Rightarrow> Some (patVel, st))"

definition zero_delta :: WorldPoint3D where
  "zero_delta = \<lparr>p = \<lparr>pLong = 0, pLat = 0\<rparr>, z = 0\<rparr>"

definition GetMove :: "externals \<Rightarrow> nat \<Rightarrow> nat \<Rightarrow> int \<Rightarrow> int \<Rightarrow> LERec \<Rightarrow> int \<Rightarrow> wind_mover \<Rightarrow> (WorldPoint3D \<times> wind_mover) option" where
  "GetMove ext model_time timeStep setIndex leIndex theLE leType st =
     (if z theLE > 0 then Some (zero_delta, st)
      else (case (if leType = UNCERTAINTY_LE ext
                  then AddUncertainty ext setIndex leIndex (current_time_value st) st
                  else Some (current_time_value st, st)) of
              None \<Rightarrow> None
            | Some (patVelocity, st') \<Rightarrow>
                (let timeValue = \<lparr>u = u patVelocity * windage theLE, v = v patVelocity * windage theLE\<rparr>;
                     dLong = ((u timeValue / METERSPERDEGREELAT ext) * real timeStep)
                               / LongToLatRatio3 ext (pLat (p theLE));
                     dLat = (v timeValue / METERSPERDEGREELAT ext) * real timeStep
                 in Some (\<lparr>p = \<lparr>pLong = dLong * 1000000, pLat = dLat * 1000000\<rparr>, z = 0\<rparr>, st'))))"

section \<open>The batch computation\<close>

text \<open>
  One iteration of the loop of \<^verbatim>\<open>get_move\<close>, for the element of index \<open>i\<close>: the array
  of deltas and the mover after it.
\<close>

definition get_move_LE :: "externals \<Rightarrow> nat \<Rightarrow> nat \<Rightarrow> WorldPoint3D list \<Rightarrow> real list \<Rightarrow> int list option \<Rightarrow> int \<Rightarrow> int \<Rightarrow> nat \<Rightarrow> WorldPoint3D list \<times> wind_mover \<Rightarrow> (WorldPoint3D list \<times> wind_mover) option" where
  "get_move_LE ext model_time step_len ref windages LE_status spillType spill_ID i ds =
     (case ds of (delta, st) \<Rightarrow>
      (case LE_status of
         None \<Rightarrow> None
       | Some codes \<Rightarrow>
           if length codes \<le> i then None
           else if codes ! i \<noteq> OILSTAT_INWATER ext
           then (if length delta \<le> i then None else Some (delta[i := zero_delta], st))
           else if length ref \<le> i \<or> length windages \<le> i then None
           else (let rec = \<lparr>p = (p (ref ! i))\<lparr>pLat := pLat (p (ref ! i)) * 1000000\<rparr>,
                            z = z (ref ! i), windage = windages ! i\<rparr>
                 in case GetMove ext model_time step_len spill_ID (int i) rec spillType st of
                      None \<Rightarrow> None
                    | Some (d, st') \<Rightarrow>
                        if length delta \<le> i then None
                        else Some (delta[i := d\<lparr>p := \<lparr>pLong = pLong (p d) / 1000000,
                                                     pLat = pLat (p d) / 1000000\<rparr>\<rparr>], st'))))"

text \<open>The loop \<^verbatim>\<open>for (int i = 0; i < n; i++)\<close>, by the number of iterations that remain.\<close>

fun get_move_loop :: "externals \<Rightarrow> nat \<Rightarrow> nat \<Rightarrow> WorldPoint3D list \<Rightarrow> real list \<Rightarrow> int list option \<Rightarrow> int \<Rightarrow> int \<Rightarrow> nat \<Rightarrow> nat \<Rightarrow> WorldPoint3D list \<times> wind_mover \<Rightarrow> (WorldPoint3D list \<times> wind_mover) option" where
  "get_move_loop ext model_time step_len ref windages LE_status spillType spill_ID i 0 ds = Some ds"
| "get_move_loop ext model_time step_len ref windages LE_status spillType spill_ID i (Suc k) ds =
     (case get_move_LE ext model_time step_len ref windages LE_status spillType spill_ID i ds of
        None \<Rightarrow> None
      | Some ds' \<Rightarrow>
          get_move_loop ext model_time step_len ref windages LE_status spillType spill_ID (Suc i) k ds')"

definition get_move :: "externals \<Rightarrow> int \<Rightarrow> nat \<Rightarrow> nat \<Rightarrow> WorldPoint3D list option \<Rightarrow> WorldPoint3D list option \<Rightarrow> real list option \<Rightarrow> int list option \<Rightarrow> int \<Rightarrow> int \<Rightarrow> wind_mover \<Rightarrow> (OSErr \<times> WorldPoint3D list option \<times> wind_mover) option" where
  "get_move ext n model_time step_len ref delta windages LE_status spillType spill_ID st =
     (case (delta, ref, windages) of
        (Some ds, Some rs, Some ws) \<Rightarrow>
          if spillType < FORECAST_LE ext \<or> spillType > UNCERTAINTY_LE ext
          then Some (InvalidPopulationTag, delta, st)
          else (case get_move_loop ext model_time step_len rs ws LE_status spillType spill_ID 0 (nat n) (ds, st) of
                  None \<Rightarrow> None
                | Some (ds', st') \<Rightarrow> Some (noErr, Some ds', st'))
      | _ \<Rightarrow> Some (InvalidArgument, delta, st))"

section \<open>Vocabulary of the properties\<close>

text \<open>
  \<open>nth_draw ext st k\<close> is the pair that the \<open>k\<close>-th call of \<^verbatim>\<open>rndv\<close> made from the
  state \<open>st\<close> returns, counting from 0; \<open>accepts st d\<close> is the test of the retry loop on
  the pair \<open>d\<close>; \<open>rndv_calls st st'\<close> is the number of calls of \<^verbatim>\<open>rndv\<close> that lead from
  \<open>st\<close> to \<open>st'\<close> (each makes two calls of the generator).
\<close>

definition nth_draw :: "externals \<Rightarrow> wind_mover \<Rightarrow> nat \<Rightarrow> real \<times> real" where
  "nth_draw ext st k = fst (rndv ext (st\<lparr>randPos := randPos st + 2 * k\<rparr>))"

definition accepts :: "wind_mover \<Rightarrow> real \<times> real \<Rightarrow> bool" where
  "accepts st d =
     TermsLessThanMax (fst d) (snd d) (fMaxSpeed st) (fMaxAngle st) (fSigma2 st) (fSigmaTheta st)"

definition rndv_calls :: "wind_mover \<Rightarrow> wind_mover \<Rightarrow> nat" where
  "rndv_calls st st' = (randPos st' - randPos st) div 2"

section \<open>Concrete inputs\<close>

text \<open>
  The mover as \<^verbatim>\<open>Init\<close> and \<^verbatim>\<open>PrepareForModelRun\<close> leave it (no store, refresh time
  0), with no wind cached and the generator at its start.
\<close>

definition Init_mover :: wind_mover where
  "Init_mover =
     \<lparr>fUncertainStartTime = 0, fDuration = 10800, fTimeUncertaintyWasSet = 0,
      fWindUncertaintyList = None, fLESetSizes = None,
      fSpeedScale = 2, fAngleScale = 0.4, fMaxSpeed = 30, fMaxAngle = 60,
      fSigma2 = 0, fSigmaTheta = 0, fUncertaintyDiffusion = 0,
      current_time_value = \<lparr>u = 0, v = 0\<rparr>, randPos = 0\<rparr>"

text \<open>
  Externals whose generator always answers 1/4 for the angle and \<open>exp (-1/2)\<close> otherwise,
  so that every call of \<^verbatim>\<open>rndv\<close> returns the pair (0, 1); allocation always succeeds.
\<close>

definition steady_externals :: externals where
  "steady_externals =
     \<lparr>GetRandomFloat = (\<lambda>lo hi k. if lo = 0 then 1 / 4 else exp (- 1 / 2)),
      NewHandle_ok = (\<lambda>k. True),
      uninitialised = \<lparr>randCos = 7, randSin = 7\<rparr>,
      METERSPERDEGREELAT = 111120,
      LongToLatRatio3 = (\<lambda>lat. 1),
      OILSTAT_INWATER = 2, OILSTAT_TO_BE_REMOVED = 12, FORECAST_LE = 1, UNCERTAINTY_LE = 2\<rparr>"

text \<open>
  \<open>kept_draws ext codes xs\<close>: the draws of \<open>xs\<close> whose status code is not
  \<^verbatim>\<open>OILSTAT_TO_BE_REMOVED\<close>, in their order.
\<close>

definition kept_draws :: "externals \<Rightarrow> int list \<Rightarrow> LEWindUncertainRec list \<Rightarrow> LEWindUncertainRec list" where
  "kept_draws ext codes xs = map snd (filter (\<lambda>(c, x). c \<noteq> OILSTAT_TO_BE_REMOVED ext) (zip codes xs))"

text \<open>A mover with one uncertainty set of five draws.\<close>

definition five_draws :: "LEWindUncertainRec list" where
  "five_draws =
     [\<lparr>randCos = 1, randSin = 10\<rparr>, \<lparr>randCos = 2, randSin = 20\<rparr>, \<lparr>randCos = 3, randSin = 30\<rparr>,
      \<lparr>randCos = 4, randSin = 40\<rparr>, \<lparr>randCos = 5, randSin = 50\<rparr>]"

definition mover_five :: wind_mover where
  "mover_five = Init_mover\<lparr>fWindUncertaintyList := Some five_draws, fLESetSizes := Some [0]\<rparr>"

text \<open>
  The vocabulary of section 4.4 of the specification: the magnitude of a wind vector, a
  vector rescaled by a factor, a vector rotated by an angle, the angle \<open>dtheta\<close> in
  radians, and the quantity \<open>w'\<close> in the specification's words (the square of
  \<open>x = randCos * s' + m\<close> divided by \<open>max (cos dtheta) 0.001\<close>).
\<close>

definition speed :: "VelocityRec \<Rightarrow> real" where
  "speed w = sqrt (v w * v w + u w * u w)"

definition scale :: "real \<Rightarrow> VelocityRec \<Rightarrow> VelocityRec" where
  "scale t w = \<lparr>u = u w * t, v = v w * t\<rparr>"

definition rotate :: "real \<Rightarrow> VelocityRec \<Rightarrow> VelocityRec" where
  "rotate a w = \<lparr>u = u w * cos a - v w * sin a, v = v w * cos a + u w * sin a\<rparr>"

definition dtheta_of :: "real \<Rightarrow> LEWindUncertainRec \<Rightarrow> real" where
  "dtheta_of sigmaTheta d = randSin d * sigmaTheta * pi / 180"

definition spec_w' :: "real \<Rightarrow> real \<Rightarrow> LEWindUncertainRec \<Rightarrow> real \<Rightarrow> real" where
  "spec_w' sigma2 sigmaTheta d normV =
     (let w = normV;
          s = max (w\<^sup>2 - sigma2) 0;
          sqs = sqrt s;
          m = sqrt sqs;
          s' = sqrt (w - sqs);
          x = randCos d * s' + m
      in x\<^sup>2 / max (cos (dtheta_of sigmaTheta d)) 0.001)"

text \<open>
  The perturbed wind as C3 words it: the wind rescaled by \<open>sqrt w' / normV\<close>, then
  rotated by \<open>dtheta\<close>.
\<close>

definition spec_perturbed :: "real \<Rightarrow> real \<Rightarrow> LEWindUncertainRec \<Rightarrow> VelocityRec \<Rightarrow> VelocityRec" where
  "spec_perturbed sigma2 sigmaTheta d w =
     rotate (dtheta_of sigmaTheta d) (scale (sqrt (spec_w' sigma2 sigmaTheta d (speed w)) / speed w) w)"

text \<open>
  A mover with one uncertainty set of one draw, \<open>sigma2 = 9\<close> and \<open>sigmaTheta = 2\<close>.
\<close>

definition mover_gale :: wind_mover where
  "mover_gale = Init_mover\<lparr>fWindUncertaintyList := Some [\<lparr>randCos = 1, randSin = 0\<rparr>],
                           fLESetSizes := Some [0], fSigma2 := 9, fSigmaTheta := 2\<rparr>"

text \<open>
  The vocabulary of the batch computation: the element that \<^verbatim>\<open>get_move\<close> hands to
  \<^verbatim>\<open>GetMove\<close> (the latitude multiplied by 1,000,000), a delta divided by 1,000,000, a
  delta multiplied by 1,000,000, and the displacement in plain degrees that a velocity
  \<open>vel\<close> gives over a time step at a latitude.
\<close>

definition scaled_LE :: "WorldPoint3D \<Rightarrow> real \<Rightarrow> LERec" where
  "scaled_LE r w = \<lparr>p = \<lparr>pLong = pLong (p r), pLat = pLat (p r) * 1000000\<rparr>, z = z r, windage = w\<rparr>"

definition descaled :: "WorldPoint3D \<Rightarrow> WorldPoint3D" where
  "descaled d = \<lparr>p = \<lparr>pLong = pLong (p d) / 1000000, pLat = pLat (p d) / 1000000\<rparr>, z = z d\<rparr>"

definition degrees_delta :: "externals \<Rightarrow> VelocityRec \<Rightarrow> real \<Rightarrow> nat \<Rightarrow> real \<Rightarrow> WorldPoint3D" where
  "degrees_delta ext vel w timeStep lat =
     \<lparr>p = \<lparr>pLong = ((u vel * w / METERSPERDEGREELAT ext) * real timeStep) / LongToLatRatio3 ext lat,
           pLat = (v vel * w / METERSPERDEGREELAT ext) * real timeStep\<rparr>, z = 0\<rparr>"

definition rescaled :: "WorldPoint3D \<Rightarrow> WorldPoint3D" where
  "rescaled d = \<lparr>p = \<lparr>pLong = pLong (p d) * 1000000, pLat = pLat (p d) * 1000000\<rparr>, z = z d\<rparr>"

text \<open>A mover whose cached wind blows north at 4 m/s, and two surface points.\<close>

definition mover_breeze :: wind_mover where
  "mover_breeze = Init_mover\<lparr>current_time_value := \<lparr>u = 0, v = 4\<rparr>\<rparr>"

definition two_points :: "WorldPoint3D list" where
  "two_points = [\<lparr>p = \<lparr>pLong = - 122, pLat = 47\<rparr>, z = 0\<rparr>, \<lparr>p = \<lparr>pLong = - 123, pLat = 48\<rparr>, z = 0\<rparr>]"

text \<open>
  The delta of one in-water element as C5 words it: the latitude divided by 1,000,000
  before the call of \<^verbatim>\<open>GetMove\<close>, the returned delta multiplied by 1,000,000 after it.
\<close>

definition spec_get_move_delta :: "externals \<Rightarrow> nat \<Rightarrow> nat \<Rightarrow> int \<Rightarrow> int \<Rightarrow> WorldPoint3D \<Rightarrow> real \<Rightarrow> int \<Rightarrow> wind_mover \<Rightarrow> WorldPoint3D option" where
  "spec_get_move_delta ext model_time step_len spill_ID i r w spillType st =
     (case GetMove ext model_time step_len spill_ID i
             \<lparr>p = \<lparr>pLong = pLong (p r), pLat = pLat (p r) / 1000000\<rparr>, z = z r, windage = w\<rparr> spillType st of
        None \<Rightarrow> None
      | Some (d, st') \<Rightarrow> Some \<lparr>p = \<lparr>pLong = pLong (p d) * 1000000, pLat = pLat (p d) * 1000000\<rparr>, z = z d\<rparr>)"

text \<open>
  \<open>is_bounded_draw ext st r\<close>: the draw record \<open>r\<close> is what the bounded draw returns from
  some position of the generator, with the bounds and spreads of the mover \<open>st\<close>.
\<close>

definition draw_rec :: "real \<times> real \<Rightarrow> LEWindUncertainRec" where
  "draw_rec d = \<lparr>randCos = fst d, randSin = snd d\<rparr>"

definition is_bounded_draw :: "externals \<Rightarrow> wind_mover \<Rightarrow> LEWindUncertainRec \<Rightarrow> bool" where
  "is_bounded_draw ext st r = (\<exists>n. r = draw_rec (fst (sampleBounded ext (st\<lparr>randPos := n\<rparr>))))"

text \<open>A mover with two uncertainty sets, of two and three draws.\<close>

definition mover_two_sets :: wind_mover where
  "mover_two_sets = Init_mover\<lparr>fWindUncertaintyList := Some five_draws, fLESetSizes := Some [0, 2]\<rparr>"

text \<open>
  Externals whose generator makes every call of \<^verbatim>\<open>rndv\<close> return the pair (0, 3), and
  a mover with one set of one draw, the spreads of a step at elapsed time 0 and the angle
  bound set to 30 degrees.
\<close>

definition gusty_externals :: externals where
  "gusty_externals =
     \<lparr>GetRandomFloat = (\<lambda>lo hi k. if lo = 0 then 1 / 4 else exp (- 9 / 2)),
      NewHandle_ok = (\<lambda>k. True),
      uninitialised = \<lparr>randCos = 7, randSin = 7\<rparr>,
      METERSPERDEGREELAT = 111120,
      LongToLatRatio3 = (\<lambda>lat. 1),
      OILSTAT_INWATER = 2, OILSTAT_TO_BE_REMOVED = 12, FORECAST_LE = 1, UNCERTAINTY_LE = 2\<rparr>"

definition mover_one :: wind_mover where
  "mover_one = Init_mover\<lparr>fMaxAngle := 30, fWindUncertaintyList := Some [\<lparr>randCos = 0, randSin = 0\<rparr>],
                          fLESetSizes := Some [0]\<rparr>"

section \<open>The sampler: properties\<close>

lemma rndv_after:
  "rndv ext (st\<lparr>randPos := randPos st + 2 * k\<rparr>)
     = (nth_draw ext st k, st\<lparr>randPos := randPos st + 2 * (Suc k)\<rparr>)"
  by (simp add: rndv_def nth_draw_def Let_def)

lemma rndv_first: "rndv ext st = (nth_draw ext st 0, st\<lparr>randPos := randPos st + 2\<rparr>)"
  using rndv_after [of ext st 0] by simp

text \<open>
  The retry loop entered with the draw of index \<open>i\<close> and \<open>r\<close> iterations left returns the
  draw of some index \<open>k\<close> between \<open>i\<close> and \<open>i + r\<close>: every draw before it was refused, and
  it was accepted unless the iterations ran out.
\<close>

lemma redraw_char:
  "redraw ext r (nth_draw ext st i, st\<lparr>randPos := randPos st + 2 * Suc i\<rparr>) = (d, st') \<Longrightarrow>
   \<exists>k. i \<le> k \<and> k \<le> i + r \<and> d = nth_draw ext st k \<and> st' = st\<lparr>randPos := randPos st + 2 * Suc k\<rparr>
     \<and> (\<forall>j. i \<le> j \<and> j < k \<longrightarrow> \<not> accepts st (nth_draw ext st j)) \<and> (k < i + r \<longrightarrow> accepts st d)"
proof (induction r arbitrary: i)
  case 0
  then show ?case by auto
next
  case (Suc r)
  obtain c s where cs: "nth_draw ext st i = (c, s)" by (cases "nth_draw ext st i")
  show ?case
  proof (cases "accepts st (nth_draw ext st i)")
    case True
    with Suc.prems cs have "d = nth_draw ext st i" "st' = st\<lparr>randPos := randPos st + 2 * Suc i\<rparr>"
      by (auto simp: accepts_def)
    with True show ?thesis by (intro exI [of _ i]) auto
  next
    case False
    with Suc.prems cs
    have "redraw ext r (rndv ext (st\<lparr>randPos := randPos st + 2 * Suc i\<rparr>)) = (d, st')"
      by (auto simp: accepts_def)
    then have "redraw ext r (nth_draw ext st (Suc i), st\<lparr>randPos := randPos st + 2 * Suc (Suc i)\<rparr>) = (d, st')"
      by (simp only: rndv_after)
    from Suc.IH [OF this] obtain k where k: "Suc i \<le> k" "k \<le> Suc i + r" "d = nth_draw ext st k"
      "st' = st\<lparr>randPos := randPos st + 2 * Suc k\<rparr>"
      "\<forall>j. Suc i \<le> j \<and> j < k \<longrightarrow> \<not> accepts st (nth_draw ext st j)" "k < Suc i + r \<longrightarrow> accepts st d"
      by blast
    have "\<forall>j. i \<le> j \<and> j < k \<longrightarrow> \<not> accepts st (nth_draw ext st j)"
    proof (intro allI impI)
      fix j assume "i \<le> j \<and> j < k"
      then show "\<not> accepts st (nth_draw ext st j)"
        using False k(5) by (cases "j = i") auto
    qed
    with k show ?thesis by (intro exI [of _ k]) auto
  qed
qed

lemma rndv_steady: "rndv steady_externals st = ((0, 1), st\<lparr>randPos := randPos st + 2\<rparr>)"
  by (simp add: rndv_def steady_externals_def Let_def)

lemma nth_draw_steady: "nth_draw steady_externals st k = (0, 1)"
  by (simp add: nth_draw_def rndv_steady)

lemma redraw_steady_fails:
  "\<not> TermsLessThanMax 0 1 (fMaxSpeed st) (fMaxAngle st) (fSigma2 st) (fSigmaTheta st) \<Longrightarrow>
   redraw steady_externals r ((0, 1), st) = ((0, 1), st\<lparr>randPos := randPos st + 2 * r\<rparr>)"
proof (induction r arbitrary: st)
  case 0
  then show ?case by simp
next
  case (Suc r)
  from Suc.prems
  have "\<not> TermsLessThanMax 0 1 (fMaxSpeed (st\<lparr>randPos := randPos st + 2\<rparr>)) (fMaxAngle (st\<lparr>randPos := randPos st + 2\<rparr>))
          (fSigma2 (st\<lparr>randPos := randPos st + 2\<rparr>)) (fSigmaTheta (st\<lparr>randPos := randPos st + 2\<rparr>))"
    by simp
  from Suc.IH [OF this] Suc.prems show ?case
    by (simp add: rndv_steady)
qed

text \<open>
  C6, as the claim states it, fails: with a bound that the generator's pair (0, 1) never
  meets, the bounded draw calls \<^verbatim>\<open>rndv\<close> eleven times, not at most ten.
\<close>

theorem sampleBounded_eleven_calls:
  "rndv_calls (Init_mover\<lparr>fSigmaTheta := 1, fMaxAngle := 1 / 2\<rparr>)
     (snd (sampleBounded steady_externals (Init_mover\<lparr>fSigmaTheta := 1, fMaxAngle := 1 / 2\<rparr>))) = 11"
proof -
  let ?st = "Init_mover\<lparr>fSigmaTheta := 1, fMaxAngle := 1 / 2\<rparr>"
  have "\<not> TermsLessThanMax 0 1 (fMaxSpeed (?st\<lparr>randPos := randPos ?st + 2\<rparr>)) (fMaxAngle (?st\<lparr>randPos := randPos ?st + 2\<rparr>))
          (fSigma2 (?st\<lparr>randPos := randPos ?st + 2\<rparr>)) (fSigmaTheta (?st\<lparr>randPos := randPos ?st + 2\<rparr>))"
    by (simp add: TermsLessThanMax_def)
  from redraw_steady_fails [OF this, of 10]
  have "sampleBounded steady_externals ?st = ((0, 1), ?st\<lparr>randPos := randPos ?st + 22\<rparr>)"
    by (simp add: sampleBounded_def rndv_steady)
  then show ?thesis
    by (simp add: rndv_calls_def)
qed

text \<open>
  C6, amended: the bounded draw calls \<^verbatim>\<open>rndv\<close> between one and eleven times (one draw,
  then at most ten redraws) and changes nothing but the generator's position. It returns
  the first of the first ten draws that satisfies \<open>\<bar>sigmaTheta * sinTerm\<bar> \<le> maxAngle\<close>; when
  none of the ten does, it returns the eleventh draw, which is not tested. So either the
  returned pair satisfies the bound, or ten consecutive draws failed it.
\<close>

theorem sampleBounded_draws:
  "sampleBounded ext st = (d, st') \<Longrightarrow>
   \<exists>k\<le>10. d = nth_draw ext st k \<and> st' = st\<lparr>randPos := randPos st + 2 * Suc k\<rparr>
     \<and> rndv_calls st st' = Suc k
     \<and> (\<forall>j<k. \<not> accepts st (nth_draw ext st j)) \<and> (k < 10 \<longrightarrow> accepts st d)"
proof -
  assume "sampleBounded ext st = (d, st')"
  then have "redraw ext 10 (nth_draw ext st 0, st\<lparr>randPos := randPos st + 2 * Suc 0\<rparr>) = (d, st')"
    by (simp add: sampleBounded_def rndv_first)
  from redraw_char [OF this] obtain k where k: "k \<le> 10" "d = nth_draw ext st k"
      "st' = st\<lparr>randPos := randPos st + 2 * Suc k\<rparr>"
      "\<forall>j. 0 \<le> j \<and> j < k \<longrightarrow> \<not> accepts st (nth_draw ext st j)" "k < 0 + 10 \<longrightarrow> accepts st d"
    by auto
  then show ?thesis by (intro exI [of _ k]) (auto simp: rndv_calls_def)
qed

theorem sampleBounded_draws_witness:
  "sampleBounded steady_externals Init_mover = ((0, 1), Init_mover\<lparr>randPos := 2\<rparr>) \<and>
   (\<exists>k\<le>10. (0, 1) = nth_draw steady_externals Init_mover k
      \<and> Init_mover\<lparr>randPos := 2\<rparr> = Init_mover\<lparr>randPos := randPos Init_mover + 2 * Suc k\<rparr>
      \<and> rndv_calls Init_mover (Init_mover\<lparr>randPos := 2\<rparr>) = Suc k
      \<and> (\<forall>j<k. \<not> accepts Init_mover (nth_draw steady_externals Init_mover j))
      \<and> (k < 10 \<longrightarrow> accepts Init_mover (0, 1)))"
proof -
  have e: "sampleBounded steady_externals Init_mover = ((0, 1), Init_mover\<lparr>randPos := 2\<rparr>)"
    by (simp add: sampleBounded_def rndv_steady eval_nat_numeral TermsLessThanMax_def Init_mover_def)
  from sampleBounded_draws [OF e] e show ?thesis by simp
qed

section \<open>The displacement of one element: properties\<close>

text \<open>
  C10: for an element below the surface (depth greater than 0) \<^verbatim>\<open>GetMove\<close> returns the
  zero displacement, whatever the model time, the time step, the wind, the windage, the
  population tag and the uncertainty store; it leaves the mover as it was.
\<close>

theorem GetMove_below_surface:
  "z theLE > 0 \<Longrightarrow>
   GetMove ext model_time timeStep setIndex leIndex theLE leType st = Some (zero_delta, st)"
  by (simp add: GetMove_def)

theorem GetMove_below_surface_witness:
  "z \<lparr>p = \<lparr>pLong = - 122, pLat = 47000000\<rparr>, z = 5, windage = 0.03\<rparr> > 0 \<and>
   GetMove steady_externals 3600 900 0 0 \<lparr>p = \<lparr>pLong = - 122, pLat = 47000000\<rparr>, z = 5, windage = 0.03\<rparr>
     (UNCERTAINTY_LE steady_externals) (Init_mover\<lparr>current_time_value := \<lparr>u = 5, v = 0\<rparr>\<rparr>)
   = Some (\<lparr>p = \<lparr>pLong = 0, pLat = 0\<rparr>, z = 0\<rparr>, Init_mover\<lparr>current_time_value := \<lparr>u = 5, v = 0\<rparr>\<rparr>)"
proof -
  have h: "z \<lparr>p = \<lparr>pLong = - 122, pLat = 47000000\<rparr>, z = 5, windage = 0.03\<rparr> > 0"
    by simp
  from GetMove_below_surface [OF h] h show ?thesis
    by (simp add: zero_delta_def)
qed

section \<open>The uncertainty store: properties\<close>

lemma compact_char:
  "numrec \<le> i \<Longrightarrow> i + length cs \<le> length xs \<Longrightarrow> compact_draws ext cs i numrec xs = (ys, n) \<Longrightarrow>
   length ys = length xs \<and> n \<le> length xs
   \<and> take n ys = take numrec xs @ kept_draws ext cs (drop i xs)"
proof (induction cs arbitrary: i numrec xs)
  case Nil
  then show ?case by (simp add: kept_draws_def)
next
  case (Cons c cs)
  from Cons.prems have i: "i < length xs" by simp
  then have d: "drop i xs = xs ! i # drop (Suc i) xs"
    by (simp add: Cons_nth_drop_Suc)
  show ?case
  proof (cases "c = OILSTAT_TO_BE_REMOVED ext")
    case True
    with Cons.prems have "compact_draws ext cs (Suc i) numrec xs = (ys, n)" by simp
    from Cons.IH [OF _ _ this] Cons.prems True d show ?thesis
      by (simp add: kept_draws_def)
  next
    case False
    let ?xs = "xs[numrec := xs ! i]"
    from False Cons.prems have c: "compact_draws ext cs (Suc i) (Suc numrec) ?xs = (ys, n)" by simp
    have "Suc numrec \<le> Suc i" "Suc i + length cs \<le> length ?xs"
      using Cons.prems by simp_all
    from Cons.IH [OF this c]
    have ih: "length ys = length xs" "n \<le> length xs"
      "take n ys = take (Suc numrec) ?xs @ kept_draws ext cs (drop (Suc i) ?xs)"
      by simp_all
    have t: "take (Suc numrec) ?xs = take numrec xs @ [xs ! i]"
      using Cons.prems i by (simp add: take_Suc_conv_app_nth)
    have dr: "drop (Suc i) ?xs = drop (Suc i) xs"
      using Cons.prems by simp
    from ih t dr d False show ?thesis
      by (simp add: kept_draws_def)
  qed
qed

lemma zip_take_right: "zip (take (length ys) xs) ys = zip xs ys"
proof (induction ys arbitrary: xs)
  case Nil
  then show ?case by simp
next
  case (Cons y ys)
  then show ?case by (cases xs) simp_all
qed

lemma length_kept_draws:
  "length cs \<le> length xs \<Longrightarrow> length (kept_draws ext cs xs) = length (filter (\<lambda>c. c \<noteq> OILSTAT_TO_BE_REMOVED ext) cs)"
proof (induction cs arbitrary: xs)
  case Nil
  then show ?case by (simp add: kept_draws_def)
next
  case (Cons c cs)
  then obtain y ys where "xs = y # ys" by (cases xs) auto
  with Cons show ?case by (auto simp: kept_draws_def)
qed

lemma compact_whole:
  assumes "length xs \<le> length codes" "compact_draws ext (take (length xs) codes) 0 0 xs = (ys, n)"
  shows "take n ys = kept_draws ext codes xs" "n = length (kept_draws ext codes xs)" "length ys = length xs" "n \<le> length xs"
proof -
  have l: "0 + length (take (length xs) codes) \<le> length xs" by simp
  from compact_char [OF _ l assms(2)]
  have a: "length ys = length xs" "n \<le> length xs" "take n ys = kept_draws ext (take (length xs) codes) xs"
    by simp_all
  have z: "zip (take (length xs) codes) xs = zip codes xs"
    by (rule zip_take_right)
  then have k: "kept_draws ext (take (length xs) codes) xs = kept_draws ext codes xs"
    by (simp add: kept_draws_def)
  from a k show t: "take n ys = kept_draws ext codes xs" by simp
  from a(1,2) have "length (take n ys) = n" by simp
  with t show "n = length (kept_draws ext codes xs)" by simp
  from a show "length ys = length xs" "n \<le> length xs" by simp_all
qed

text \<open>
  C8, amended. \<^verbatim>\<open>ReallocateUncertainty\<close> fails with -1 when the count is 0 or the
  status codes are absent. Otherwise, when the store is absent it succeeds and changes
  nothing; when the store is allocated it fails with -1 unless the stored length equals
  the count and there is exactly one set, and then (the codes holding at least that many
  elements) it keeps exactly the draws whose element is not flagged for removal, in their
  order. When no draw is kept the store is disposed: both handles nil.
\<close>

theorem ReallocateUncertainty_shrink:
  "(statusCodes = None \<or> numLEs = 0 \<longrightarrow>
      ReallocateUncertainty ext numLEs statusCodes st = Some (InconsistentState, st))
   \<and> (statusCodes = Some codes \<and> numLEs \<noteq> 0 \<and> (fWindUncertaintyList st = None \<or> fLESetSizes st = None) \<longrightarrow>
      ReallocateUncertainty ext numLEs statusCodes st = Some (noErr, st))
   \<and> (statusCodes = Some codes \<and> numLEs \<noteq> 0 \<and> fWindUncertaintyList st = Some xs \<and> fLESetSizes st = Some offs
        \<and> (int (length xs) \<noteq> numLEs \<or> length offs \<noteq> 1) \<longrightarrow>
      ReallocateUncertainty ext numLEs statusCodes st = Some (InconsistentState, st))
   \<and> (statusCodes = Some codes \<and> numLEs \<noteq> 0 \<and> fWindUncertaintyList st = Some xs \<and> fLESetSizes st = Some offs
        \<and> int (length xs) = numLEs \<and> length offs = 1 \<and> length xs \<le> length codes \<longrightarrow>
      ReallocateUncertainty ext numLEs statusCodes st =
        (if kept_draws ext codes xs = [] then Some (noErr, DisposeUncertainty st)
         else Some (noErr, st\<lparr>fWindUncertaintyList := Some (kept_draws ext codes xs)\<rparr>)))"
proof (intro conjI impI)
  assume "statusCodes = None \<or> numLEs = 0"
  then show "ReallocateUncertainty ext numLEs statusCodes st = Some (InconsistentState, st)"
    by (auto simp: ReallocateUncertainty_def split: option.splits)
next
  assume "statusCodes = Some codes \<and> numLEs \<noteq> 0 \<and> (fWindUncertaintyList st = None \<or> fLESetSizes st = None)"
  then show "ReallocateUncertainty ext numLEs statusCodes st = Some (noErr, st)"
    by (auto simp: ReallocateUncertainty_def split: option.splits)
next
  assume "statusCodes = Some codes \<and> numLEs \<noteq> 0 \<and> fWindUncertaintyList st = Some xs \<and> fLESetSizes st = Some offs
        \<and> (int (length xs) \<noteq> numLEs \<or> length offs \<noteq> 1)"
  then show "ReallocateUncertainty ext numLEs statusCodes st = Some (InconsistentState, st)"
    by (auto simp: ReallocateUncertainty_def)
next
  assume a: "statusCodes = Some codes \<and> numLEs \<noteq> 0 \<and> fWindUncertaintyList st = Some xs \<and> fLESetSizes st = Some offs
        \<and> int (length xs) = numLEs \<and> length offs = 1 \<and> length xs \<le> length codes"
  obtain ys n where c: "compact_draws ext (take (length xs) codes) 0 0 xs = (ys, n)"
    by (cases "compact_draws ext (take (length xs) codes) 0 0 xs")
  from a have le: "length xs \<le> length codes" by simp
  note w = compact_whole [OF le c]
  have disp: "DisposeUncertainty (st\<lparr>fWindUncertaintyList := Some ys\<rparr>) = DisposeUncertainty st"
    by (simp add: DisposeUncertainty_def)
  show "ReallocateUncertainty ext numLEs statusCodes st =
        (if kept_draws ext codes xs = [] then Some (noErr, DisposeUncertainty st)
         else Some (noErr, st\<lparr>fWindUncertaintyList := Some (kept_draws ext codes xs)\<rparr>))"
  proof (cases "n = 0")
    case True
    with w have "kept_draws ext codes xs = []" by simp
    with a c True disp show ?thesis
      by (simp add: ReallocateUncertainty_def)
  next
    case False
    with w have ne: "kept_draws ext codes xs \<noteq> []" by auto
    show ?thesis
    proof (cases "n < length xs")
      case True
      with w have "SetHandleSize ext n ys = kept_draws ext codes xs"
        by (simp add: SetHandleSize_def)
      with a c False True ne show ?thesis
        by (simp add: ReallocateUncertainty_def)
    next
      case nl: False
      with w have "n = length ys" by simp
      with w have "ys = kept_draws ext codes xs" by simp
      with a c False nl ne show ?thesis
        by (simp add: ReallocateUncertainty_def)
    qed
  qed
qed


theorem ReallocateUncertainty_shrink_witness:
  "ReallocateUncertainty steady_externals 5 (Some [2, 12, 2, 12, 2]) mover_five
     = Some (noErr, mover_five\<lparr>fWindUncertaintyList :=
               Some [\<lparr>randCos = 1, randSin = 10\<rparr>, \<lparr>randCos = 3, randSin = 30\<rparr>, \<lparr>randCos = 5, randSin = 50\<rparr>]\<rparr>)
   \<and> ReallocateUncertainty steady_externals 5 (Some [12, 12, 12, 12, 12]) mover_five
     = Some (noErr, Init_mover)
   \<and> ReallocateUncertainty steady_externals 4 (Some [2, 12, 2, 12]) mover_five
     = Some (InconsistentState, mover_five)
   \<and> ReallocateUncertainty steady_externals 3 (Some [2, 2, 2]) Init_mover = Some (noErr, Init_mover)
   \<and> ReallocateUncertainty steady_externals 5 None mover_five = Some (InconsistentState, mover_five)"
proof -
  have s: "fWindUncertaintyList mover_five = Some five_draws" "fLESetSizes mover_five = Some [0]"
    by (simp_all add: mover_five_def)
  have l: "length five_draws = 5"
    by (simp add: five_draws_def)
  have h1: "Some [2, 12, 2, 12, 2] = Some [2, 12, 2, 12, 2] \<and> (5::int) \<noteq> 0
      \<and> fWindUncertaintyList mover_five = Some five_draws \<and> fLESetSizes mover_five = Some [0]
      \<and> int (length five_draws) = 5 \<and> length [0::nat] = 1 \<and> length five_draws \<le> length [2, 12, 2, 12, 2::int]"
    using s l by simp
  have h2: "Some [12, 12, 12, 12, 12] = Some [12, 12, 12, 12, 12] \<and> (5::int) \<noteq> 0
      \<and> fWindUncertaintyList mover_five = Some five_draws \<and> fLESetSizes mover_five = Some [0]
      \<and> int (length five_draws) = 5 \<and> length [0::nat] = 1 \<and> length five_draws \<le> length [12, 12, 12, 12, 12::int]"
    using s l by simp
  have h3: "Some [2, 12, 2, 12] = Some [2, 12, 2, 12] \<and> (4::int) \<noteq> 0
      \<and> fWindUncertaintyList mover_five = Some five_draws \<and> fLESetSizes mover_five = Some [0]
      \<and> (int (length five_draws) \<noteq> 4 \<or> length [0::nat] \<noteq> 1)"
    using s l by simp
  have h4: "Some [2, 2, 2] = Some [2, 2, 2::int] \<and> (3::int) \<noteq> 0
      \<and> (fWindUncertaintyList Init_mover = None \<or> fLESetSizes Init_mover = None)"
    by (simp add: Init_mover_def)
  have h5: "(None :: int list option) = None \<or> (5::int) = 0"
    by simp
  note t = ReallocateUncertainty_shrink
  have d: "DisposeUncertainty mover_five = Init_mover"
    by (simp add: DisposeUncertainty_def mover_five_def Init_mover_def)
  from t [THEN conjunct2, THEN conjunct2, THEN conjunct2, rule_format, OF h1]
  have r1: "ReallocateUncertainty steady_externals 5 (Some [2, 12, 2, 12, 2]) mover_five
     = Some (noErr, mover_five\<lparr>fWindUncertaintyList :=
               Some [\<lparr>randCos = 1, randSin = 10\<rparr>, \<lparr>randCos = 3, randSin = 30\<rparr>, \<lparr>randCos = 5, randSin = 50\<rparr>]\<rparr>)"
    by (simp add: steady_externals_def kept_draws_def five_draws_def )
  from t [THEN conjunct2, THEN conjunct2, THEN conjunct2, rule_format, OF h2]
  have r2: "ReallocateUncertainty steady_externals 5 (Some [12, 12, 12, 12, 12]) mover_five
     = Some (noErr, Init_mover)"
    by (simp add: steady_externals_def kept_draws_def five_draws_def d)
  from t [THEN conjunct2, THEN conjunct2, THEN conjunct1, rule_format, OF h3]
  have r3: "ReallocateUncertainty steady_externals 4 (Some [2, 12, 2, 12]) mover_five
     = Some (InconsistentState, mover_five)" .
  from t [THEN conjunct2, THEN conjunct1, rule_format, OF h4]
  have r4: "ReallocateUncertainty steady_externals 3 (Some [2, 2, 2]) Init_mover = Some (noErr, Init_mover)" .
  from t [THEN conjunct1, rule_format, OF h5]
  have r5: "ReallocateUncertainty steady_externals 5 None mover_five = Some (InconsistentState, mover_five)" .
  from r1 r2 r3 r4 r5 show ?thesis by blast
qed

text \<open>
  C8, as the claim states it, fails: with no store (no uncertainty set, nothing stored)
  and three elements, the call does not fail; it returns \<^verbatim>\<open>noErr\<close>.
\<close>

theorem ReallocateUncertainty_absent_store_succeeds:
  "fWindUncertaintyList Init_mover = None \<and> fLESetSizes Init_mover = None
   \<and> ReallocateUncertainty steady_externals 3 (Some [OILSTAT_INWATER steady_externals, OILSTAT_INWATER steady_externals, OILSTAT_INWATER steady_externals]) Init_mover
       = Some (noErr, Init_mover)"
  by (simp add: ReallocateUncertainty_def Init_mover_def)

section \<open>The perturbation of the wind: properties\<close>

lemma rotate_square_sum:
  "(b * c + a * s) * (b * c + a * s) + (a * c - b * s) * (a * c - b * s) = (b * b + a * a) * (c * c + s * s)"
  for a b c s :: real
  by (simp add: algebra_simps)

lemma speed_rotate_scale: "speed (rotate a (scale t w)) = \<bar>t\<bar> * speed w"
proof -
  have "speed (rotate a (scale t w)) = sqrt (((v w * t) * (v w * t) + (u w * t) * (u w * t)) * (cos a * cos a + sin a * sin a))"
    by (simp only: speed_def rotate_def scale_def VelocityRec.simps rotate_square_sum)
  also have "\<dots> = sqrt (t\<^sup>2 * (v w * v w + u w * u w))"
    by (simp add: sin_cos_squared_add3 power2_eq_square algebra_simps)
  finally show ?thesis
    by (simp add: speed_def real_sqrt_mult)
qed

lemma spec_w'_nonneg: "0 \<le> spec_w' sigma2 sigmaTheta d normV"
  by (simp add: spec_w'_def Let_def)

text \<open>
  C3, amended. For an allocated store, a wind of magnitude \<open>normV\<close> at least 1 and a draw
  \<open>d\<close> inside the draw array, with \<open>w'\<close> as the specification computes it, the wind is
  rescaled by the factor \<open>w' / normV\<close> (not \<open>sqrt w' / normV\<close>) and then rotated by
  \<open>dtheta\<close>: the perturbed wind has magnitude \<open>w'\<close>. The mover is unchanged.
\<close>

theorem AddUncertainty_formula:
  assumes "fWindUncertaintyList st = Some xs" and "fLESetSizes st = Some offs"
    and "1 \<le> speed patVel"
    and "0 \<le> setIndex" and "setIndex < int (length offs)"
    and "0 \<le> int (offs ! nat setIndex) + leIndex"
    and "int (offs ! nat setIndex) + leIndex < int (length xs)"
    and "d = xs ! nat (int (offs ! nat setIndex) + leIndex)"
    and "w' = spec_w' (fSigma2 st) (fSigmaTheta st) d (speed patVel)"
  shows "AddUncertainty ext setIndex leIndex patVel st
           = Some (rotate (dtheta_of (fSigmaTheta st) d) (scale (w' / speed patVel) patVel), st)
         \<and> speed (rotate (dtheta_of (fSigmaTheta st) d) (scale (w' / speed patVel) patVel)) = w'"
proof
  let ?w = "speed patVel"
  let ?s = "?w * ?w - fSigma2 st"
  have n: "\<not> sqrt (v patVel * v patVel + u patVel * u patVel) < 1"
    using assms(3) by (simp add: speed_def)
  have i: "\<not> (setIndex < 0 \<or> int (length offs) \<le> setIndex)"
    "\<not> (int (offs ! nat setIndex) + leIndex < 0 \<or> int (length xs) \<le> int (offs ! nat setIndex) + leIndex)"
    using assms(4-7) by simp_all
  have sqs: "(if 0 < ?s then sqrt ?s else 0) = sqrt (max (?w\<^sup>2 - fSigma2 st) 0)"
    by (simp add: max_def power2_eq_square)
  have mm: "(if 0 < ?s then sqrt (sqrt ?s) else 0) = sqrt (sqrt (max (?w\<^sup>2 - fSigma2 st) 0))"
    by (simp add: max_def power2_eq_square)
  have c: "(if cos a < 0.001 then 0.001 else cos a) = max (cos a) 0.001" for a :: real
    by (simp add: max_def)
  have "AddUncertainty ext setIndex leIndex patVel st
      = Some (rotate (dtheta_of (fSigmaTheta st) d)
                (scale (spec_w' (fSigma2 st) (fSigmaTheta st) d ?w / ?w) patVel), st)"
    unfolding AddUncertainty_def assms(1,2) option.case prod.case Let_def assms(8) [symmetric]
      if_not_P [OF n] if_not_P [OF i(1)] if_not_P [OF i(2)]
    unfolding speed_def [symmetric] sqs mm c
    by (simp add: rotate_def scale_def spec_w'_def dtheta_of_def Let_def power2_eq_square)
  with assms(9) show "AddUncertainty ext setIndex leIndex patVel st
           = Some (rotate (dtheta_of (fSigmaTheta st) d) (scale (w' / speed patVel) patVel), st)"
    by simp
  have p: "0 < speed patVel" using assms(3) by simp
  have w: "0 \<le> w'" using assms(9) by (simp add: spec_w'_nonneg)
  have "speed (rotate (dtheta_of (fSigmaTheta st) d) (scale (w' / speed patVel) patVel))
          = \<bar>w' / speed patVel\<bar> * speed patVel"
    by (rule speed_rotate_scale)
  also have "\<dots> = w'" using p w by simp
  finally show "speed (rotate (dtheta_of (fSigmaTheta st) d) (scale (w' / speed patVel) patVel)) = w'" .
qed


lemma sqrt_25: "sqrt 25 = 5" and sqrt_16: "sqrt 16 = 4" and sqrt_9: "sqrt 9 = 3" and sqrt_4: "sqrt 4 = 2"
  by (rule real_sqrt_unique; simp)+

lemma speed_3_4: "speed \<lparr>u = 3, v = 4\<rparr> = 5"
  by (simp add: speed_def sqrt_25)

lemma spec_w'_gale: "spec_w' 9 2 \<lparr>randCos = 1, randSin = 0\<rparr> 5 = 9"
  by (simp add: spec_w'_def dtheta_of_def Let_def sqrt_16 sqrt_4)

theorem AddUncertainty_formula_witness:
  "fWindUncertaintyList mover_gale = Some [\<lparr>randCos = 1, randSin = 0\<rparr>] \<and> fLESetSizes mover_gale = Some [0]
   \<and> 1 \<le> speed \<lparr>u = 3, v = 4\<rparr>
   \<and> AddUncertainty steady_externals 0 0 \<lparr>u = 3, v = 4\<rparr> mover_gale
        = Some (\<lparr>u = 27 / 5, v = 36 / 5\<rparr>, mover_gale)
   \<and> speed \<lparr>u = 27 / 5, v = 36 / 5\<rparr> = 9"
proof -
  have h: "fWindUncertaintyList mover_gale = Some [\<lparr>randCos = 1, randSin = 0\<rparr>]"
    "fLESetSizes mover_gale = Some [0]" "1 \<le> speed \<lparr>u = 3, v = 4\<rparr>"
    "(0::int) \<le> 0" "(0::int) < int (length [0::nat])"
    "0 \<le> int ([0::nat] ! nat 0) + 0"
    "int ([0::nat] ! nat 0) + 0 < int (length [\<lparr>randCos = 1, randSin = 0\<rparr>])"
    "\<lparr>randCos = 1, randSin = 0\<rparr> = [\<lparr>randCos = 1, randSin = 0\<rparr>] ! nat (int ([0::nat] ! nat 0) + 0)"
    "(9::real) = spec_w' (fSigma2 mover_gale) (fSigmaTheta mover_gale) \<lparr>randCos = 1, randSin = 0\<rparr> (speed \<lparr>u = 3, v = 4\<rparr>)"
    by (simp_all add: mover_gale_def speed_3_4 spec_w'_gale)
  from AddUncertainty_formula [OF h, of steady_externals] h(1-3) show ?thesis
    by (simp add: speed_3_4 rotate_def scale_def dtheta_of_def mover_gale_def)
qed

text \<open>
  C3, as the claim states it, fails: for the wind (3, 4), \<open>sigma2 = 9\<close> and the draw (1, 0),
  \<open>w'\<close> is 9; the code returns the wind scaled by 9/5, of magnitude 9, where the claim's
  formula gives the wind scaled by 3/5.
\<close>

theorem AddUncertainty_not_sqrt_scaled:
  "AddUncertainty steady_externals 0 0 \<lparr>u = 3, v = 4\<rparr> mover_gale
        = Some (\<lparr>u = 27 / 5, v = 36 / 5\<rparr>, mover_gale)
   \<and> spec_perturbed (fSigma2 mover_gale) (fSigmaTheta mover_gale) \<lparr>randCos = 1, randSin = 0\<rparr> \<lparr>u = 3, v = 4\<rparr>
        = \<lparr>u = 9 / 5, v = 12 / 5\<rparr>
   \<and> AddUncertainty steady_externals 0 0 \<lparr>u = 3, v = 4\<rparr> mover_gale
        \<noteq> Some (spec_perturbed (fSigma2 mover_gale) (fSigmaTheta mover_gale) \<lparr>randCos = 1, randSin = 0\<rparr> \<lparr>u = 3, v = 4\<rparr>,
                  mover_gale)"
proof -
  have "sqrt (4 * 4 + 3 * 3) = (5::real)"
    using sqrt_25 by simp
  then have c: "AddUncertainty steady_externals 0 0 \<lparr>u = 3, v = 4\<rparr> mover_gale
        = Some (\<lparr>u = 27 / 5, v = 36 / 5\<rparr>, mover_gale)"
    by (simp add: AddUncertainty_def mover_gale_def Init_mover_def Let_def sqrt_16 sqrt_4)
  have w: "spec_perturbed (fSigma2 mover_gale) (fSigmaTheta mover_gale) \<lparr>randCos = 1, randSin = 0\<rparr> \<lparr>u = 3, v = 4\<rparr>
        = \<lparr>u = 9 / 5, v = 12 / 5\<rparr>"
    by (simp add: spec_perturbed_def mover_gale_def speed_3_4 spec_w'_gale sqrt_9 rotate_def scale_def dtheta_of_def)
  from c w show ?thesis by simp
qed

section \<open>The batch computation: properties\<close>

lemma get_move_LE_in_water:
  assumes "i < length codes" "codes ! i = OILSTAT_INWATER ext"
  shows "get_move_LE ext mt sl rs ws (Some codes) spillType spill_ID i (ds, st) =
     (if length rs \<le> i \<or> length ws \<le> i then None
      else case GetMove ext mt sl spill_ID (int i) (scaled_LE (rs ! i) (ws ! i)) spillType st of
             None \<Rightarrow> None
           | Some (d, st') \<Rightarrow> if length ds \<le> i then None else Some (ds[i := descaled d], st'))"
proof -
  have e: "(p (rs ! i))\<lparr>pLat := pLat (p (rs ! i)) * 1000000\<rparr> = \<lparr>pLong = pLong (p (rs ! i)), pLat = pLat (p (rs ! i)) * 1000000\<rparr>"
    by (cases "p (rs ! i)") simp
  have f: "d\<lparr>p := \<lparr>pLong = pLong (p d) / 1000000, pLat = pLat (p d) / 1000000\<rparr>\<rparr> = descaled d" for d :: WorldPoint3D
    by (cases d) (simp add: descaled_def)
  from assms show ?thesis
    by (simp add: get_move_LE_def scaled_LE_def e f Let_def split: option.splits)
qed

lemma get_move_LE_frame:
  "get_move_LE ext mt sl rs ws sts spillType spill_ID j (ds, st) = Some (ds', st') \<Longrightarrow>
   length ds' = length ds \<and> (\<forall>i. i \<noteq> j \<longrightarrow> ds' ! i = ds ! i)"
  by (auto simp: get_move_LE_def Let_def split: option.splits if_splits)

lemma get_move_loop_frame:
  "get_move_loop ext mt sl rs ws sts spillType spill_ID j k (ds, st) = Some (ds', st') \<Longrightarrow>
   length ds' = length ds \<and> (\<forall>i<j. ds' ! i = ds ! i)"
proof (induction k arbitrary: j ds st)
  case 0
  then show ?case by simp
next
  case (Suc k)
  from Suc.prems obtain ds1 st1 where
    b: "get_move_LE ext mt sl rs ws sts spillType spill_ID j (ds, st) = Some (ds1, st1)"
    and l: "get_move_loop ext mt sl rs ws sts spillType spill_ID (Suc j) k (ds1, st1) = Some (ds', st')"
    by (auto split: option.splits)
  from get_move_LE_frame [OF b] Suc.IH [OF l] show ?case by auto
qed

lemma get_move_loop_split:
  "get_move_loop ext mt sl rs ws sts spillType spill_ID j (a + b) X =
     (case get_move_loop ext mt sl rs ws sts spillType spill_ID j a X of
        None \<Rightarrow> None
      | Some Y \<Rightarrow> get_move_loop ext mt sl rs ws sts spillType spill_ID (j + a) b Y)"
proof (induction a arbitrary: j X)
  case 0
  then show ?case by simp
next
  case (Suc a)
  then show ?case by (simp split: option.splits)
qed


lemma GetMove_scaled_output:
  assumes "GetMove ext mt ts si li le lt st = Some (d, st')" "\<not> 0 < z le"
  shows "\<exists>vel. (lt \<noteq> UNCERTAINTY_LE ext \<longrightarrow> vel = current_time_value st)
           \<and> d = rescaled (degrees_delta ext vel (windage le) ts (pLat (p le)))"
  using assms
  by (auto simp: GetMove_def Let_def rescaled_def degrees_delta_def split: option.splits if_splits)

lemma descaled_rescaled: "descaled (rescaled d) = d"
  by (cases d, cases "p d") (simp add: descaled_def rescaled_def)

text \<open>
  C5, amended. For an in-water element \<open>i\<close> of a batch that \<^verbatim>\<open>get_move\<close> completes,
  \<^verbatim>\<open>GetMove\<close> is called, in the state the first \<open>i\<close> iterations leave, on the element
  with its latitude in degrees multiplied by 1,000,000 (the longitude as it is); the
  delta it returns is divided by 1,000,000 in both components and stored. For an element
  at the surface the delta that \<^verbatim>\<open>GetMove\<close> returns is the displacement in degrees
  multiplied by 1,000,000, so that the stored delta is in plain degrees.
\<close>

theorem get_move_in_water:
  assumes run: "get_move ext n mt sl (Some rs) (Some ds) (Some ws) (Some codes) spillType spill_ID st = Some (err, out, st')"
    and tag: "FORECAST_LE ext \<le> spillType" "spillType \<le> UNCERTAINTY_LE ext"
    and i: "int i < n" and w: "codes ! i = OILSTAT_INWATER ext"
  shows "\<exists>ds_i st_i d st_i' ds'.
           get_move_loop ext mt sl rs ws (Some codes) spillType spill_ID 0 i (ds, st) = Some (ds_i, st_i)
         \<and> GetMove ext mt sl spill_ID (int i) (scaled_LE (rs ! i) (ws ! i)) spillType st_i = Some (d, st_i')
         \<and> err = noErr \<and> out = Some ds' \<and> i < length ds' \<and> ds' ! i = descaled d
         \<and> (\<not> 0 < z (rs ! i) \<longrightarrow>
              (\<exists>vel. (spillType \<noteq> UNCERTAINTY_LE ext \<longrightarrow> vel = current_time_value st_i)
                 \<and> d = rescaled (degrees_delta ext vel (ws ! i) sl (pLat (p (rs ! i)) * 1000000))
                 \<and> ds' ! i = degrees_delta ext vel (ws ! i) sl (pLat (p (rs ! i)) * 1000000)))"
proof -
  from i have n: "nat n = i + Suc (nat n - Suc i)" by linarith
  from run tag obtain ds' where
    l: "get_move_loop ext mt sl rs ws (Some codes) spillType spill_ID 0 (nat n) (ds, st) = Some (ds', st')"
    and o: "err = noErr" "out = Some ds'"
    by (auto simp: get_move_def split: option.splits if_splits)
  from l n have l2: "get_move_loop ext mt sl rs ws (Some codes) spillType spill_ID 0 (i + Suc (nat n - Suc i)) (ds, st) = Some (ds', st')"
    by simp
  then obtain ds_i st_i where
    a: "get_move_loop ext mt sl rs ws (Some codes) spillType spill_ID 0 i (ds, st) = Some (ds_i, st_i)"
    and b: "get_move_loop ext mt sl rs ws (Some codes) spillType spill_ID i (Suc (nat n - Suc i)) (ds_i, st_i) = Some (ds', st')"
    unfolding get_move_loop_split by (auto split: option.splits)
  from b obtain ds1 st1 where
    c: "get_move_LE ext mt sl rs ws (Some codes) spillType spill_ID i (ds_i, st_i) = Some (ds1, st1)"
    and r: "get_move_loop ext mt sl rs ws (Some codes) spillType spill_ID (Suc i) (nat n - Suc i) (ds1, st1) = Some (ds', st')"
    by (auto split: option.splits)
  from c have ic: "i < length codes"
    by (auto simp: get_move_LE_def split: if_splits)
  from c obtain d where
    g: "GetMove ext mt sl spill_ID (int i) (scaled_LE (rs ! i) (ws ! i)) spillType st_i = Some (d, st1)"
    and u: "ds1 = ds_i[i := descaled d]" and len: "i < length ds_i"
    unfolding get_move_LE_in_water [OF ic w] by (auto split: option.splits if_splits)
  from get_move_loop_frame [OF r] u len have f: "ds' ! i = descaled d" "i < length ds'"
    by auto
  have "\<exists>vel. (spillType \<noteq> UNCERTAINTY_LE ext \<longrightarrow> vel = current_time_value st_i)
                 \<and> d = rescaled (degrees_delta ext vel (ws ! i) sl (pLat (p (rs ! i)) * 1000000))
                 \<and> ds' ! i = degrees_delta ext vel (ws ! i) sl (pLat (p (rs ! i)) * 1000000)"
    if "\<not> 0 < z (rs ! i)"
  proof -
    from that have "\<not> 0 < z (scaled_LE (rs ! i) (ws ! i))"
      by (simp add: scaled_LE_def)
    from GetMove_scaled_output [OF g this] obtain vel where
      "spillType \<noteq> UNCERTAINTY_LE ext \<longrightarrow> vel = current_time_value st_i"
      "d = rescaled (degrees_delta ext vel (ws ! i) sl (pLat (p (rs ! i)) * 1000000))"
      by (auto simp: scaled_LE_def)
    with f show ?thesis
      by (auto simp: descaled_rescaled)
  qed
  with a g o f show ?thesis by blast
qed

lemma get_move_breeze:
  "get_move steady_externals 2 3600 926 (Some two_points) (Some [zero_delta, zero_delta])
     (Some [3 / 100, 3 / 100]) (Some [3, 2]) (FORECAST_LE steady_externals) 0 mover_breeze
   = Some (noErr, Some [zero_delta, \<lparr>p = \<lparr>pLong = 0, pLat = 1 / 1000\<rparr>, z = 0\<rparr>], mover_breeze)"
  by (simp add: get_move_def get_move_LE_def GetMove_def two_points_def mover_breeze_def Init_mover_def
      steady_externals_def eval_nat_numeral Let_def)

theorem get_move_in_water_witness:
  "get_move steady_externals 2 3600 926 (Some two_points) (Some [zero_delta, zero_delta])
     (Some [3 / 100, 3 / 100]) (Some [3, 2]) (FORECAST_LE steady_externals) 0 mover_breeze
   = Some (noErr, Some [zero_delta, \<lparr>p = \<lparr>pLong = 0, pLat = 1 / 1000\<rparr>, z = 0\<rparr>], mover_breeze)
   \<and> FORECAST_LE steady_externals \<le> FORECAST_LE steady_externals \<and> FORECAST_LE steady_externals \<le> UNCERTAINTY_LE steady_externals \<and> int 1 < 2 \<and> [3, 2] ! 1 = OILSTAT_INWATER steady_externals
   \<and> (\<exists>d st_i'. GetMove steady_externals 3600 926 0 1
                  \<lparr>p = \<lparr>pLong = - 123, pLat = 48000000\<rparr>, z = 0, windage = 3 / 100\<rparr> (FORECAST_LE steady_externals) mover_breeze = Some (d, st_i')
         \<and> [zero_delta, \<lparr>p = \<lparr>pLong = 0, pLat = 1 / 1000\<rparr>, z = 0\<rparr>] ! 1 = descaled d
         \<and> d = \<lparr>p = \<lparr>pLong = 0, pLat = 1000\<rparr>, z = 0\<rparr>)"
proof -
  have h: "FORECAST_LE steady_externals \<le> FORECAST_LE steady_externals" "FORECAST_LE steady_externals \<le> UNCERTAINTY_LE steady_externals" "int 1 < 2" "[3, 2] ! 1 = OILSTAT_INWATER steady_externals"
    by (simp_all add: steady_externals_def )
  have z: "get_move_loop steady_externals 3600 926 two_points [3 / 100, 3 / 100] (Some [3, 2]) (FORECAST_LE steady_externals) 0 0 1
             ([zero_delta, zero_delta], mover_breeze) = Some ([zero_delta, zero_delta], mover_breeze)"
    by (simp add: steady_externals_def get_move_LE_def )
  from get_move_in_water [OF get_move_breeze h] obtain ds_i st_i d st_i' ds' where
    r: "get_move_loop steady_externals 3600 926 two_points [3 / 100, 3 / 100] (Some [3, 2]) (FORECAST_LE steady_externals) 0 0 1
             ([zero_delta, zero_delta], mover_breeze) = Some (ds_i, st_i)"
     "GetMove steady_externals 3600 926 0 (int 1) (scaled_LE (two_points ! 1) ([3 / 100, 3 / 100] ! 1)) (FORECAST_LE steady_externals) st_i = Some (d, st_i')"
     "Some [zero_delta, \<lparr>p = \<lparr>pLong = 0, pLat = 1 / 1000\<rparr>, z = 0\<rparr>] = Some ds'" "ds' ! 1 = descaled d"
    by blast
  from r(1) z have s: "st_i = mover_breeze" by simp
  from r(2) s have g: "GetMove steady_externals 3600 926 0 1
                  \<lparr>p = \<lparr>pLong = - 123, pLat = 48000000\<rparr>, z = 0, windage = 3 / 100\<rparr> (FORECAST_LE steady_externals) mover_breeze = Some (d, st_i')"
    by (simp add: scaled_LE_def two_points_def)
  then have "d = \<lparr>p = \<lparr>pLong = 0, pLat = 1000\<rparr>, z = 0\<rparr>"
    by (simp add: GetMove_def mover_breeze_def Init_mover_def steady_externals_def Let_def)
  with g r(3,4) get_move_breeze h show ?thesis by auto
qed

text \<open>
  C5, as the claim states it, fails: for one in-water element at latitude 48 and a wind
  of 4 m/s to the north, \<^verbatim>\<open>get_move\<close> stores the latitude delta 1/1000 (degrees);
  dividing the latitude before the call and multiplying the delta after it, as the claim
  says, would store 1,000,000,000.
\<close>

theorem get_move_not_expand_then_reencode:
  "get_move steady_externals 1 3600 926 (Some [\<lparr>p = \<lparr>pLong = - 123, pLat = 48\<rparr>, z = 0\<rparr>]) (Some [zero_delta])
     (Some [3 / 100]) (Some [OILSTAT_INWATER steady_externals]) (FORECAST_LE steady_externals) 0 mover_breeze
   = Some (noErr, Some [\<lparr>p = \<lparr>pLong = 0, pLat = 1 / 1000\<rparr>, z = 0\<rparr>], mover_breeze)
   \<and> spec_get_move_delta steady_externals 3600 926 0 0 \<lparr>p = \<lparr>pLong = - 123, pLat = 48\<rparr>, z = 0\<rparr> (3 / 100) (FORECAST_LE steady_externals) mover_breeze
   = Some \<lparr>p = \<lparr>pLong = 0, pLat = 1000000000\<rparr>, z = 0\<rparr>"
  by (simp add: get_move_def get_move_LE_def GetMove_def spec_get_move_delta_def mover_breeze_def Init_mover_def
      steady_externals_def Let_def)


text \<open>
  What \<^verbatim>\<open>get_move\<close> does check: an absent \<^verbatim>\<open>delta\<close>, \<^verbatim>\<open>ref\<close> or \<^verbatim>\<open>windages\<close>
  returns 1 and writes nothing; with the three present, a tag below \<^verbatim>\<open>FORECAST_LE\<close> or
  above \<^verbatim>\<open>UNCERTAINTY_LE\<close> returns 2 and writes nothing; and an element that is not in
  water gets the zero delta, the mover being left as it is.
\<close>

lemma get_move_checks:
  "delta = None \<or> ref = None \<or> windages = None \<Longrightarrow>
     get_move ext n mt sl ref delta windages sts spillType spill_ID st = Some (InvalidArgument, delta, st)"
  "spillType < FORECAST_LE ext \<or> spillType > UNCERTAINTY_LE ext \<Longrightarrow>
     get_move ext n mt sl (Some rs) (Some ds) (Some ws) sts spillType spill_ID st
       = Some (InvalidPopulationTag, Some ds, st)"
  "i < length codes \<Longrightarrow> codes ! i \<noteq> OILSTAT_INWATER ext \<Longrightarrow> i < length ds \<Longrightarrow>
     get_move_LE ext mt sl rs ws (Some codes) spillType spill_ID i (ds, st) = Some (ds[i := zero_delta], st)"
  by (auto simp: get_move_def get_move_LE_def split: option.splits)

text \<open>
  C7: the code at a failing input. With the three tested pointers present and the status
  array absent, \<^verbatim>\<open>get_move\<close> does not return 1: for one element it reads
  \<^verbatim>\<open>LE_status[0]\<close> through the null pointer (the undefined behaviour is the result
  \<open>None\<close>), and for no element it returns \<^verbatim>\<open>noErr\<close>.
\<close>

theorem get_move_null_status:
  "get_move steady_externals 1 3600 926 (Some [\<lparr>p = \<lparr>pLong = - 123, pLat = 48\<rparr>, z = 0\<rparr>]) (Some [zero_delta])
     (Some [3 / 100]) None (FORECAST_LE steady_externals) 0 mover_breeze = None
   \<and> get_move steady_externals 0 3600 926 (Some []) (Some []) (Some []) None (FORECAST_LE steady_externals) 0 mover_breeze
       = Some (noErr, Some [], mover_breeze)"
  by (simp add: steady_externals_def get_move_def get_move_LE_def )

section \<open>The scheduler: properties\<close>

lemma sampleBounded_state: "\<exists>n. snd (sampleBounded ext st) = st\<lparr>randPos := n\<rparr>"
proof -
  obtain d st' where e: "sampleBounded ext st = (d, st')" by (cases "sampleBounded ext st")
  then have "redraw ext 10 (nth_draw ext st 0, st\<lparr>randPos := randPos st + 2 * Suc 0\<rparr>) = (d, st')"
    by (simp add: sampleBounded_def rndv_first)
  from redraw_char [OF this] e show ?thesis by auto
qed

lemma fill_draws_None:
  "fWindUncertaintyList st = None \<Longrightarrow> \<exists>n. fill_draws ext i k st = st\<lparr>randPos := n\<rparr>"
proof (induction k arbitrary: i st)
  case 0
  have "st = st\<lparr>randPos := randPos st\<rparr>" by simp
  then show ?case by (metis fill_draws.simps(1))
next
  case (Suc k)
  obtain c s st' where e: "sampleBounded ext st = ((c, s), st')"
    by (metis prod.exhaust)
  with sampleBounded_state [of ext st] obtain n where n: "st' = st\<lparr>randPos := n\<rparr>"
    by auto
  with Suc.prems have "fWindUncertaintyList st' = None" by simp
  then have u: "st'\<lparr>fWindUncertaintyList := map_option (\<lambda>xs. xs[i := \<lparr>randCos = c, randSin = s\<rparr>]) (fWindUncertaintyList st')\<rparr> = st'"
    by simp
  from Suc.IH [of st' "Suc i"] n Suc.prems obtain m where "fill_draws ext (Suc i) k st' = st'\<lparr>randPos := m\<rparr>"
    by auto
  with e u n show ?case by (auto intro: exI [of _ m])
qed

lemma fill_draws_Some:
  "fWindUncertaintyList st = Some xs \<Longrightarrow>
   \<exists>ys n. fill_draws ext i k st = st\<lparr>fWindUncertaintyList := Some ys, randPos := n\<rparr>
      \<and> length ys = length xs \<and> take i ys = take i xs"
proof (induction k arbitrary: i st xs)
  case 0
  have "st = st\<lparr>fWindUncertaintyList := Some xs, randPos := randPos st\<rparr>"
    using 0 by simp
  then show ?case by (metis fill_draws.simps(1))
next
  case (Suc k)
  obtain c s st' where e: "sampleBounded ext st = ((c, s), st')"
    by (metis prod.exhaust)
  with sampleBounded_state [of ext st] obtain n where n: "st' = st\<lparr>randPos := n\<rparr>"
    by auto
  let ?xs = "xs[i := \<lparr>randCos = c, randSin = s\<rparr>]"
  let ?st = "st'\<lparr>fWindUncertaintyList := Some ?xs\<rparr>"
  from n Suc.prems have u: "st'\<lparr>fWindUncertaintyList := map_option (\<lambda>xs. xs[i := \<lparr>randCos = c, randSin = s\<rparr>]) (fWindUncertaintyList st')\<rparr> = ?st"
    by simp
  have "fWindUncertaintyList ?st = Some ?xs" by simp
  from Suc.IH [OF this, of "Suc i"] obtain ys m where
    r: "fill_draws ext (Suc i) k ?st = ?st\<lparr>fWindUncertaintyList := Some ys, randPos := m\<rparr>"
    "length ys = length ?xs" "take (Suc i) ys = take (Suc i) ?xs"
    by blast
  from r(3) have "take i (take (Suc i) ys) = take i (take (Suc i) ?xs)" by simp
  then have t: "take i ys = take i xs" by (simp add: min_def)
  from e u r(1) n have "fill_draws ext i (Suc k) st = st\<lparr>fWindUncertaintyList := Some ys, randPos := m\<rparr>"
    by simp
  with r(2) t show ?case by auto
qed

lemma offsets_char:
  "offsets a ss = (os, n) \<Longrightarrow>
   length os = length ss \<and> n = a + sum_list ss \<and> (\<forall>i<length ss. os ! i = a + sum_list (take i ss))"
proof (induction ss arbitrary: a os n)
  case Nil
  then show ?case by simp
next
  case (Cons s ss)
  obtain os' n' where o: "offsets (a + s) ss = (os', n')" by (cases "offsets (a + s) ss")
  with Cons.prems have e: "os = a # os'" "n = n'" by simp_all
  from Cons.IH [OF o] have ih: "length os' = length ss" "n' = a + s + sum_list ss"
    "\<forall>i<length ss. os' ! i = a + s + sum_list (take i ss)" by simp_all
  have "os ! i = a + sum_list (take i (s # ss))" if "i < length (s # ss)" for i
    using that e ih by (cases i) simp_all
  with e ih show ?case by simp
qed

lemma compare_sets_char:
  "length os = length ss \<Longrightarrow> compare_sets a os ss = (d, n) \<Longrightarrow>
   (d \<longleftrightarrow> (\<exists>i<length os. os ! i \<noteq> a + sum_list (take i ss))) \<and> (\<not> d \<longrightarrow> n = a + sum_list ss)"
proof (induction a os ss rule: compare_sets.induct)
  case (1 numrec off offs s ss)
  show ?case
  proof (cases "numrec \<noteq> off")
    case True
    with 1 have "d" by simp
    moreover from True have "\<exists>i<length (off # offs). (off # offs) ! i \<noteq> numrec + sum_list (take i (s # ss))"
      by (intro exI [of _ 0]) simp
    ultimately show ?thesis by simp
  next
    case False
    with 1 have c: "compare_sets (numrec + s) offs ss = (d, n)" and l: "length offs = length ss"
      by simp_all
    from 1(1) [OF False l c]
    have ih: "d \<longleftrightarrow> (\<exists>i<length offs. offs ! i \<noteq> numrec + s + sum_list (take i ss))"
      "\<not> d \<longrightarrow> n = numrec + s + sum_list ss" by simp_all
    have "(\<exists>i<length (off # offs). (off # offs) ! i \<noteq> numrec + sum_list (take i (s # ss)))
          \<longleftrightarrow> (\<exists>i<length offs. offs ! i \<noteq> numrec + s + sum_list (take i ss))"
    proof
      assume "\<exists>i<length (off # offs). (off # offs) ! i \<noteq> numrec + sum_list (take i (s # ss))"
      then obtain i where i: "i < length (off # offs)" "(off # offs) ! i \<noteq> numrec + sum_list (take i (s # ss))"
        by blast
      with False obtain j where "i = Suc j" by (cases i) auto
      with i show "\<exists>i<length offs. offs ! i \<noteq> numrec + s + sum_list (take i ss)"
        by (intro exI [of _ j]) (simp add: add.assoc)
    next
      assume "\<exists>i<length offs. offs ! i \<noteq> numrec + s + sum_list (take i ss)"
      then obtain j where "j < length offs" "offs ! j \<noteq> numrec + s + sum_list (take j ss)"
        by blast
      then show "\<exists>i<length (off # offs). (off # offs) ! i \<noteq> numrec + sum_list (take i (s # ss))"
        by (intro exI [of _ "Suc j"]) (simp add: add.assoc)
    qed
    with ih show ?thesis by (simp add: add.assoc)
  qed
qed simp_all


lemma rndv_list_irrelevant:
  "rndv ext (st\<lparr>fWindUncertaintyList := l\<rparr>)
     = (fst (rndv ext st), (snd (rndv ext st))\<lparr>fWindUncertaintyList := l\<rparr>)"
  by (simp add: rndv_def Let_def)

lemma redraw_list_irrelevant:
  "redraw ext r (d, st\<lparr>fWindUncertaintyList := l\<rparr>)
     = (fst (redraw ext r (d, st)), (snd (redraw ext r (d, st)))\<lparr>fWindUncertaintyList := l\<rparr>)"
proof (induction r arbitrary: d st)
  case 0
  then show ?case by simp
next
  case (Suc r)
  obtain c s where d: "d = (c, s)" by (cases d)
  obtain d' st' where r: "rndv ext st = (d', st')" by (cases "rndv ext st")
  from Suc [of d' st'] d r show ?case
    by (simp add: rndv_list_irrelevant)
qed

lemma sampleBounded_list_irrelevant:
  "fst (sampleBounded ext (st\<lparr>fWindUncertaintyList := l\<rparr>)) = fst (sampleBounded ext st)"
proof -
  obtain d' st' where r: "rndv ext st = (d', st')" by (cases "rndv ext st")
  then show ?thesis
    by (simp add: sampleBounded_def rndv_list_irrelevant redraw_list_irrelevant)
qed

lemma is_bounded_draw_list: "is_bounded_draw ext (st\<lparr>fWindUncertaintyList := l\<rparr>) r = is_bounded_draw ext st r"
proof -
  have "fst (sampleBounded ext (st\<lparr>fWindUncertaintyList := l, randPos := n\<rparr>))
        = fst (sampleBounded ext (st\<lparr>randPos := n\<rparr>))" for n
  proof -
    have "st\<lparr>fWindUncertaintyList := l, randPos := n\<rparr> = (st\<lparr>randPos := n\<rparr>)\<lparr>fWindUncertaintyList := l\<rparr>"
      by (cases st) simp
    then show ?thesis
      by (simp only: sampleBounded_list_irrelevant)
  qed
  then show ?thesis by (simp add: is_bounded_draw_def)
qed

lemma is_bounded_draw_randPos: "is_bounded_draw ext (st\<lparr>randPos := m\<rparr>) r = is_bounded_draw ext st r"
  by (simp add: is_bounded_draw_def)

lemma is_bounded_draw_here:
  "sampleBounded ext st = ((c, s), st') \<Longrightarrow> is_bounded_draw ext st \<lparr>randCos = c, randSin = s\<rparr>"
proof -
  assume "sampleBounded ext st = ((c, s), st')"
  then have "\<lparr>randCos = c, randSin = s\<rparr> = draw_rec (fst (sampleBounded ext (st\<lparr>randPos := randPos st\<rparr>)))"
    by (simp add: draw_rec_def)
  then show ?thesis unfolding is_bounded_draw_def by blast
qed

lemma fill_draws_entries:
  "fWindUncertaintyList st = Some xs \<Longrightarrow> i + k \<le> length xs \<Longrightarrow>
   fWindUncertaintyList (fill_draws ext i k st) = Some ys \<Longrightarrow>
   \<forall>j. i \<le> j \<and> j < i + k \<longrightarrow> is_bounded_draw ext st (ys ! j)"
proof (induction k arbitrary: i st xs)
  case 0
  then show ?case by auto
next
  case (Suc k)
  obtain c s st' where e: "sampleBounded ext st = ((c, s), st')"
    by (metis prod.exhaust)
  with sampleBounded_state [of ext st] obtain n where n: "st' = st\<lparr>randPos := n\<rparr>"
    by auto
  let ?xs = "xs[i := \<lparr>randCos = c, randSin = s\<rparr>]"
  let ?st = "st'\<lparr>fWindUncertaintyList := Some ?xs\<rparr>"
  from n Suc.prems have u: "st'\<lparr>fWindUncertaintyList := map_option (\<lambda>xs. xs[i := \<lparr>randCos = c, randSin = s\<rparr>]) (fWindUncertaintyList st')\<rparr> = ?st"
    by simp
  have l: "fWindUncertaintyList ?st = Some ?xs" by simp
  from e u have f: "fill_draws ext i (Suc k) st = fill_draws ext (Suc i) k ?st" by simp
  with Suc.prems have y: "fWindUncertaintyList (fill_draws ext (Suc i) k ?st) = Some ys" by simp
  have b: "Suc i + k \<le> length ?xs" using Suc.prems by simp
  from Suc.IH [OF l b y] have ih: "\<forall>j. Suc i \<le> j \<and> j < Suc i + k \<longrightarrow> is_bounded_draw ext ?st (ys ! j)" .
  from fill_draws_Some [OF l, of ext "Suc i" k] y have "take (Suc i) ys = take (Suc i) ?xs"
    by auto
  then have "take (Suc i) ys ! i = take (Suc i) ?xs ! i" by simp
  then have yi: "ys ! i = \<lparr>randCos = c, randSin = s\<rparr>"
    using Suc.prems by simp
  have t: "is_bounded_draw ext ?st r = is_bounded_draw ext st r" for r
    using n by (simp add: is_bounded_draw_list is_bounded_draw_randPos)
  show ?case
  proof (intro allI impI)
    fix j assume j: "i \<le> j \<and> j < i + Suc k"
    show "is_bounded_draw ext st (ys ! j)"
    proof (cases "j = i")
      case True
      with yi is_bounded_draw_here [OF e] show ?thesis by simp
    next
      case False
      with j ih t show ?thesis by simp
    qed
  qed
qed

lemma AllocateUncertainty_ok:
  "sizes \<noteq> [] \<Longrightarrow> NewHandle_ok ext 0 \<Longrightarrow> NewHandle_ok ext 1 \<Longrightarrow>
   AllocateUncertainty ext sizes st
     = (noErr, (DisposeUncertainty st)\<lparr>fLESetSizes := Some (fst (offsets 0 sizes)),
                 fWindUncertaintyList := Some (replicate (sum_list sizes) (uninitialised ext))\<rparr>)"
proof -
  assume a: "sizes \<noteq> []" "NewHandle_ok ext 0" "NewHandle_ok ext 1"
  obtain os n where o: "offsets 0 sizes = (os, n)" by (cases "offsets 0 sizes")
  from offsets_char [OF o] have "n = sum_list sizes" by simp
  with a o show ?thesis
    by (simp add: AllocateUncertainty_def Let_def)
qed

lemma AllocateUncertainty_failure_disposes:
  "AllocateUncertainty ext sizes st = (err, st') \<Longrightarrow> err \<noteq> noErr \<Longrightarrow>
   fWindUncertaintyList st' = None \<and> fLESetSizes st' = None"
  by (auto simp: AllocateUncertainty_def DisposeUncertainty_def Let_def split: if_splits prod.splits)

lemma UpdateUncertaintyValues_Some:
  assumes "fWindUncertaintyList st = Some xs"
  shows "\<exists>ys n. UpdateUncertaintyValues ext e st
            = st\<lparr>fTimeUncertaintyWasSet := e, fWindUncertaintyList := Some ys, randPos := n\<rparr>
          \<and> length ys = length xs \<and> (\<forall>r\<in>set ys. is_bounded_draw ext (st\<lparr>fTimeUncertaintyWasSet := e\<rparr>) r)"
proof -
  let ?st = "st\<lparr>fTimeUncertaintyWasSet := e\<rparr>"
  have l: "fWindUncertaintyList ?st = Some xs" using assms by simp
  from fill_draws_Some [OF l, of ext 0 "length xs"] obtain ys n where
    f: "fill_draws ext 0 (length xs) ?st = ?st\<lparr>fWindUncertaintyList := Some ys, randPos := n\<rparr>"
    "length ys = length xs" by blast
  then have y: "fWindUncertaintyList (fill_draws ext 0 (length xs) ?st) = Some ys" by simp
  have "0 + length xs \<le> length xs" by simp
  from fill_draws_entries [OF l this y] f(2)
  have "\<forall>r\<in>set ys. is_bounded_draw ext ?st r"
    by (auto simp: in_set_conv_nth)
  with f assms show ?thesis
    by (auto simp: UpdateUncertaintyValues_def Let_def)
qed

lemma reinit_flags_char:
  assumes "reinit_flags e ss st = Some (ri, ra, numrec, sz)"
  shows "ri \<longleftrightarrow>
           (fWindUncertaintyList st = None \<or> fLESetSizes st = None \<or> e < fTimeUncertaintyWasSet st
            \<or> (\<exists>offs xs. fLESetSizes st = Some offs \<and> fWindUncertaintyList st = Some xs
                 \<and> (length ss \<noteq> length offs
                    \<or> (\<exists>i<length offs. offs ! i \<noteq> sum_list (take i ss))
                    \<or> sum_list ss < length xs)))"
proof (cases "fLESetSizes st")
  case None
  with assms show ?thesis by (simp add: reinit_flags_def)
next
  case (Some offs)
  note offs = this
  show ?thesis
  proof (cases "length ss \<noteq> length offs")
    case True
    with assms offs have "ri" by (simp add: reinit_flags_def)
    with True offs show ?thesis by (cases "fWindUncertaintyList st") auto
  next
    case False
    then have len: "length offs = length ss" by simp
    show ?thesis
    proof (cases "fWindUncertaintyList st")
      case None
      with assms offs False show ?thesis by (simp add: reinit_flags_def)
    next
      case (Some xs)
      obtain d n where c: "compare_sets 0 offs ss = (d, n)" by (cases "compare_sets 0 offs ss")
      from compare_sets_char [OF len c]
      have d: "d \<longleftrightarrow> (\<exists>i<length offs. offs ! i \<noteq> sum_list (take i ss))" "\<not> d \<longrightarrow> n = sum_list ss"
        by simp_all
      from assms offs Some False c
      have ri: "ri \<longleftrightarrow> (if n \<noteq> length xs \<and> \<not> n > length xs then True else e < fTimeUncertaintyWasSet st \<or> d)"
        by (auto simp: reinit_flags_def split: if_splits)
      show ?thesis
      proof (cases d)
        case True
        with ri d offs Some show ?thesis by auto
      next
        case nd: False
        with d have "n = sum_list ss" by simp
        with ri nd d offs Some len show ?thesis by auto
      qed
    qed
  qed
qed

lemma reinit_flags_grow:
  assumes "reinit_flags e ss st = Some (ri, True, numrec, sz)"
  shows "\<exists>offs xs. fLESetSizes st = Some offs \<and> fWindUncertaintyList st = Some xs
           \<and> length ss = length offs \<and> sz = length xs \<and> length xs < numrec
           \<and> numrec = snd (compare_sets 0 offs ss)"
  using assms
  by (auto simp: reinit_flags_def Let_def split: option.splits if_splits prod.splits)

lemma update_sigmas_frame:
  "fSigma2 (update_sigmas e (st\<lparr>fWindUncertaintyList := l, randPos := n\<rparr>)) = fSigma2 (update_sigmas e st)"
  "fSigmaTheta (update_sigmas e (st\<lparr>fWindUncertaintyList := l, randPos := n\<rparr>)) = fSigmaTheta (update_sigmas e st)"
  by (simp_all add: update_sigmas_def Let_def)

lemma finish_update_reinit:
  assumes "ss \<noteq> []" "NewHandle_ok ext 0" "NewHandle_ok ext 1"
  shows "\<exists>st_a st' ys. finish_update ext e ss True s = (noErr, st')
           \<and> st' = UpdateUncertaintyValues ext e st_a
           \<and> fWindUncertaintyList st_a = Some (replicate (sum_list ss) (uninitialised ext))
           \<and> fLESetSizes st' = Some (fst (offsets 0 ss))
           \<and> fWindUncertaintyList st' = Some ys \<and> length ys = sum_list ss
           \<and> (\<forall>r\<in>set ys. is_bounded_draw ext st' r)
           \<and> fTimeUncertaintyWasSet st' = e
           \<and> fSigma2 st' = fSigma2 (update_sigmas e s) \<and> fSigmaTheta st' = fSigmaTheta (update_sigmas e s)"
proof -
  let ?A = "(DisposeUncertainty (update_sigmas e s))\<lparr>fLESetSizes := Some (fst (offsets 0 ss)),
                 fWindUncertaintyList := Some (replicate (sum_list ss) (uninitialised ext))\<rparr>"
  have a: "AllocateUncertainty ext ss (update_sigmas e s) = (noErr, ?A)"
    by (rule AllocateUncertainty_ok [OF assms])
  then have f: "finish_update ext e ss True s = (noErr, UpdateUncertaintyValues ext e ?A)"
    by (simp add: finish_update_def Let_def)
  have l: "fWindUncertaintyList ?A = Some (replicate (sum_list ss) (uninitialised ext))" by simp
  from UpdateUncertaintyValues_Some [OF l, of ext e] obtain ys n where
    u: "UpdateUncertaintyValues ext e ?A = ?A\<lparr>fTimeUncertaintyWasSet := e, fWindUncertaintyList := Some ys, randPos := n\<rparr>"
    and len: "length ys = sum_list ss"
    and b: "\<forall>r\<in>set ys. is_bounded_draw ext (?A\<lparr>fTimeUncertaintyWasSet := e\<rparr>) r"
    by auto
  let ?st' = "UpdateUncertaintyValues ext e ?A"
  from u have u2: "?st' = (?A\<lparr>fTimeUncertaintyWasSet := e\<rparr>)\<lparr>fWindUncertaintyList := Some ys\<rparr>\<lparr>randPos := n\<rparr>"
    by simp
  have b': "\<forall>r\<in>set ys. is_bounded_draw ext ?st' r"
    unfolding u2 is_bounded_draw_randPos is_bounded_draw_list using b .
  have "fLESetSizes ?st' = Some (fst (offsets 0 ss))" "fWindUncertaintyList ?st' = Some ys"
    "fTimeUncertaintyWasSet ?st' = e"
    "fSigma2 ?st' = fSigma2 (update_sigmas e s)" "fSigmaTheta ?st' = fSigmaTheta (update_sigmas e s)"
    unfolding u by (simp_all add: DisposeUncertainty_def)
  with f l len b' show ?thesis by blast
qed

text \<open>
  C9, amended. On a step with uncertainty active, \<^verbatim>\<open>needToReInit\<close> is set if and only
  if the store is absent, or the elapsed time is before the recorded refresh time, or
  the number of sets differs from the target, or a stored offset differs from the prefix
  sum of the target sizes, or the stored total exceeds the target total. When it is set,
  the grow block does not leave early, the target has a set and both allocations
  succeed, the step reports success: the store is allocated to the target sizes, every
  entry is a bounded draw under the spreads of this step, and the refresh time is the
  elapsed time. When it is not set, nothing grows and no refresh is due, only the
  spreads change.
\<close>

theorem UpdateUncertainty_reinit:
  assumes active: "fUncertainStartTime st \<le> elapsedTime"
    and flags: "reinit_flags elapsedTime sizes st = Some (needToReInit, needToReAllocate, numrec, uncertListSize)"
  shows "(needToReInit \<longleftrightarrow>
            (fWindUncertaintyList st = None \<or> fLESetSizes st = None
             \<or> elapsedTime < fTimeUncertaintyWasSet st
             \<or> (\<exists>offs xs. fLESetSizes st = Some offs \<and> fWindUncertaintyList st = Some xs
                  \<and> (length sizes \<noteq> length offs
                     \<or> (\<exists>i<length offs. offs ! i \<noteq> sum_list (take i sizes))
                     \<or> sum_list sizes < length xs))))
       \<and> (needToReInit \<and> \<not> (needToReAllocate \<and> length sizes \<noteq> 1)
            \<and> sizes \<noteq> [] \<and> NewHandle_ok ext 0 \<and> NewHandle_ok ext 1 \<longrightarrow>
            (\<exists>st_a st' ys. UpdateUncertainty ext elapsedTime sizes st = Some (noErr, st')
               \<and> st' = UpdateUncertaintyValues ext elapsedTime st_a
               \<and> fWindUncertaintyList st_a = Some (replicate (sum_list sizes) (uninitialised ext))
               \<and> fLESetSizes st' = Some (fst (offsets 0 sizes))
               \<and> fWindUncertaintyList st' = Some ys \<and> length ys = sum_list sizes
               \<and> (\<forall>r\<in>set ys. is_bounded_draw ext st' r)
               \<and> fTimeUncertaintyWasSet st' = elapsedTime
               \<and> fSigma2 st' = fSigma2 (update_sigmas elapsedTime st)
               \<and> fSigmaTheta st' = fSigmaTheta (update_sigmas elapsedTime st)))
       \<and> (\<not> needToReInit \<and> \<not> needToReAllocate
            \<and> real elapsedTime < real (fTimeUncertaintyWasSet st) + fDuration st \<longrightarrow>
            UpdateUncertainty ext elapsedTime sizes st = Some (noErr, update_sigmas elapsedTime st))"
proof (intro conjI impI)
  show "needToReInit \<longleftrightarrow>
            (fWindUncertaintyList st = None \<or> fLESetSizes st = None
             \<or> elapsedTime < fTimeUncertaintyWasSet st
             \<or> (\<exists>offs xs. fLESetSizes st = Some offs \<and> fWindUncertaintyList st = Some xs
                  \<and> (length sizes \<noteq> length offs
                     \<or> (\<exists>i<length offs. offs ! i \<noteq> sum_list (take i sizes))
                     \<or> sum_list sizes < length xs)))"
    by (rule reinit_flags_char [OF flags])
next
  assume h: "needToReInit \<and> \<not> (needToReAllocate \<and> length sizes \<noteq> 1)
            \<and> sizes \<noteq> [] \<and> NewHandle_ok ext 0 \<and> NewHandle_ok ext 1"
  then have ok: "sizes \<noteq> []" "NewHandle_ok ext 0" "NewHandle_ok ext 1" and ri: needToReInit
    by simp_all
  show "\<exists>st_a st' ys. UpdateUncertainty ext elapsedTime sizes st = Some (noErr, st')
               \<and> st' = UpdateUncertaintyValues ext elapsedTime st_a
               \<and> fWindUncertaintyList st_a = Some (replicate (sum_list sizes) (uninitialised ext))
               \<and> fLESetSizes st' = Some (fst (offsets 0 sizes))
               \<and> fWindUncertaintyList st' = Some ys \<and> length ys = sum_list sizes
               \<and> (\<forall>r\<in>set ys. is_bounded_draw ext st' r)
               \<and> fTimeUncertaintyWasSet st' = elapsedTime
               \<and> fSigma2 st' = fSigma2 (update_sigmas elapsedTime st)
               \<and> fSigmaTheta st' = fSigmaTheta (update_sigmas elapsedTime st)"
  proof (cases needToReAllocate)
    case False
    with active flags ri
    have "UpdateUncertainty ext elapsedTime sizes st = Some (finish_update ext elapsedTime sizes True st)"
      by (simp add: UpdateUncertainty_def)
    with finish_update_reinit [OF ok, of elapsedTime st] show ?thesis
      by auto
  next
    case True
    with h have one: "length sizes = 1" by simp
    from True flags have "reinit_flags elapsedTime sizes st = Some (needToReInit, True, numrec, uncertListSize)"
      by simp
    from reinit_flags_grow [OF this] obtain offs xs where
      s: "fLESetSizes st = Some offs" "fWindUncertaintyList st = Some xs" "length sizes = length offs"
      by blast
    let ?st1 = "st\<lparr>fWindUncertaintyList := map_option (SetHandleSize ext numrec) (fWindUncertaintyList st)\<rparr>"
    let ?g = "fill_draws ext uncertListSize (numrec - uncertListSize) ?st1"
    from active flags ri True one s
    have u: "UpdateUncertainty ext elapsedTime sizes st = Some (finish_update ext elapsedTime sizes True ?g)"
      by (simp add: UpdateUncertainty_def Let_def)
    have "fWindUncertaintyList ?st1 = Some (SetHandleSize ext numrec xs)"
      using s by simp
    from fill_draws_Some [OF this, of ext uncertListSize "numrec - uncertListSize"] obtain ys n where
      "?g = ?st1\<lparr>fWindUncertaintyList := Some ys, randPos := n\<rparr>" by blast
    then have g: "?g = st\<lparr>fWindUncertaintyList := Some ys, randPos := n\<rparr>" by simp
    have "fSigma2 (update_sigmas elapsedTime ?g) = fSigma2 (update_sigmas elapsedTime st)"
      "fSigmaTheta (update_sigmas elapsedTime ?g) = fSigmaTheta (update_sigmas elapsedTime st)"
      unfolding g by (rule update_sigmas_frame)+
    with finish_update_reinit [OF ok, of elapsedTime ?g] u show ?thesis
      by auto
  qed
next
  assume "\<not> needToReInit \<and> \<not> needToReAllocate
            \<and> real elapsedTime < real (fTimeUncertaintyWasSet st) + fDuration st"
  with active flags show "UpdateUncertainty ext elapsedTime sizes st = Some (noErr, update_sigmas elapsedTime st)"
    by (simp add: UpdateUncertainty_def finish_update_def update_sigmas_def Let_def)
qed


lemma reinit_flags_match:
  assumes "fWindUncertaintyList st = Some xs" "fLESetSizes st = Some offs"
    and "\<not> e < fTimeUncertaintyWasSet st" and "length ss = length offs"
    and "\<forall>i<length offs. offs ! i = sum_list (take i ss)"
  shows "reinit_flags e ss st = Some (sum_list ss < length xs, length xs < sum_list ss, sum_list ss, length xs)"
proof -
  obtain d n where c: "compare_sets 0 offs ss = (d, n)" by (cases "compare_sets 0 offs ss")
  from assms(4) have "length offs = length ss" by simp
  from compare_sets_char [OF this c] assms(5) have "\<not> d" "n = sum_list ss" by auto
  with assms c show ?thesis
    by (auto simp: reinit_flags_def Let_def)
qed

lemma finish_update_keep:
  assumes "fWindUncertaintyList s = Some ys"
  shows "\<exists>st' zs. finish_update ext e ss False s = (noErr, st')
           \<and> fWindUncertaintyList st' = Some zs \<and> length zs = length ys \<and> fLESetSizes st' = fLESetSizes s
           \<and> (real e < real (fTimeUncertaintyWasSet s) + fDuration s \<longrightarrow>
                zs = ys \<and> fTimeUncertaintyWasSet st' = fTimeUncertaintyWasSet s)"
proof (cases "real e < real (fTimeUncertaintyWasSet s) + fDuration s")
  case True
  then have "finish_update ext e ss False s = (noErr, update_sigmas e s)"
    by (simp add: finish_update_def update_sigmas_def Let_def)
  with assms True show ?thesis
    by (simp add: update_sigmas_def Let_def)
next
  case False
  let ?s1 = "update_sigmas e s"
  from False have f: "finish_update ext e ss False s = (noErr, UpdateUncertaintyValues ext e ?s1)"
    by (simp add: finish_update_def update_sigmas_def Let_def)
  have "fWindUncertaintyList ?s1 = Some ys"
    using assms by (simp add: update_sigmas_def Let_def)
  from UpdateUncertaintyValues_Some [OF this, of ext e] obtain zs n where
    "UpdateUncertaintyValues ext e ?s1 = ?s1\<lparr>fTimeUncertaintyWasSet := e, fWindUncertaintyList := Some zs, randPos := n\<rparr>"
    "length zs = length ys" by blast
  with f False show ?thesis
    by (simp add: update_sigmas_def Let_def)
qed

text \<open>
  C4, amended. On a step with uncertainty active, a store present, the clock not moved
  back, the set count and every offset matching the target, and a stored total that
  differs from the target total: when the stored total is smaller and there is exactly
  one set, the step succeeds with a draw array of the target total, whose leading
  entries are the stored ones unless a refresh is due; when the stored total is smaller
  and there are several sets, the step returns \<^verbatim>\<open>InconsistentState\<close>; when the stored
  total is larger, the store is reinitialised to the target sizes and the step succeeds
  (the target having a set and the allocations succeeding).
\<close>

theorem UpdateUncertainty_total_mismatch:
  assumes active: "fUncertainStartTime st \<le> elapsedTime"
    and store: "fWindUncertaintyList st = Some xs" "fLESetSizes st = Some offs"
    and clock: "\<not> elapsedTime < fTimeUncertaintyWasSet st"
    and count: "length sizes = length offs"
    and bounds: "\<forall>i<length offs. offs ! i = sum_list (take i sizes)"
    and mismatch: "sum_list sizes \<noteq> length xs"
  shows "(length xs < sum_list sizes \<and> length sizes = 1 \<longrightarrow>
            (\<exists>st' ys. UpdateUncertainty ext elapsedTime sizes st = Some (noErr, st')
               \<and> fWindUncertaintyList st' = Some ys \<and> length ys = sum_list sizes
               \<and> fLESetSizes st' = Some offs
               \<and> (real elapsedTime < real (fTimeUncertaintyWasSet st) + fDuration st \<longrightarrow>
                    take (length xs) ys = xs \<and> fTimeUncertaintyWasSet st' = fTimeUncertaintyWasSet st)))
       \<and> (length xs < sum_list sizes \<and> length sizes \<noteq> 1 \<longrightarrow>
            (\<exists>st'. UpdateUncertainty ext elapsedTime sizes st = Some (InconsistentState, st')))
       \<and> (sum_list sizes < length xs \<and> sizes \<noteq> [] \<and> NewHandle_ok ext 0 \<and> NewHandle_ok ext 1 \<longrightarrow>
            (\<exists>st' ys. UpdateUncertainty ext elapsedTime sizes st = Some (noErr, st')
               \<and> fWindUncertaintyList st' = Some ys \<and> length ys = sum_list sizes
               \<and> fLESetSizes st' = Some (fst (offsets 0 sizes))
               \<and> fTimeUncertaintyWasSet st' = elapsedTime
               \<and> (\<forall>r\<in>set ys. is_bounded_draw ext st' r)))"
proof (intro conjI impI)
  note fl = reinit_flags_match [OF store clock count bounds]
  {
    assume h: "length xs < sum_list sizes \<and> length sizes = 1"
    let ?n = "sum_list sizes"
    let ?st1 = "st\<lparr>fWindUncertaintyList := map_option (SetHandleSize ext ?n) (fWindUncertaintyList st)\<rparr>"
    let ?g = "fill_draws ext (length xs) (?n - length xs) ?st1"
    from h have nl: "\<not> ?n < length xs" by simp
    from active fl h nl count store
    have u: "UpdateUncertainty ext elapsedTime sizes st = Some (finish_update ext elapsedTime sizes False ?g)"
      by (simp add: UpdateUncertainty_def Let_def)
    have l1: "fWindUncertaintyList ?st1 = Some (SetHandleSize ext ?n xs)"
      using store by simp
    from fill_draws_Some [OF l1, of ext "length xs" "?n - length xs"] obtain ys n where
      g: "?g = ?st1\<lparr>fWindUncertaintyList := Some ys, randPos := n\<rparr>"
      and ly: "length ys = length (SetHandleSize ext ?n xs)"
      and ty: "take (length xs) ys = take (length xs) (SetHandleSize ext ?n xs)"
      by blast
    from h have ls: "length (SetHandleSize ext ?n xs) = ?n" "take (length xs) (SetHandleSize ext ?n xs) = xs"
      by (simp_all add: SetHandleSize_def)
    from g have gl: "fWindUncertaintyList ?g = Some ys" "fLESetSizes ?g = Some offs"
      "fTimeUncertaintyWasSet ?g = fTimeUncertaintyWasSet st" "fDuration ?g = fDuration st"
      using store by simp_all
    from finish_update_keep [OF gl(1), of ext elapsedTime sizes] obtain st' zs where
      f: "finish_update ext elapsedTime sizes False ?g = (noErr, st')"
      "fWindUncertaintyList st' = Some zs" "length zs = length ys" "fLESetSizes st' = fLESetSizes ?g"
      "real elapsedTime < real (fTimeUncertaintyWasSet ?g) + fDuration ?g \<longrightarrow>
         zs = ys \<and> fTimeUncertaintyWasSet st' = fTimeUncertaintyWasSet ?g"
      by blast
    from u f gl ly ty ls
    show "\<exists>st' ys. UpdateUncertainty ext elapsedTime sizes st = Some (noErr, st')
               \<and> fWindUncertaintyList st' = Some ys \<and> length ys = sum_list sizes
               \<and> fLESetSizes st' = Some offs
               \<and> (real elapsedTime < real (fTimeUncertaintyWasSet st) + fDuration st \<longrightarrow>
                    take (length xs) ys = xs \<and> fTimeUncertaintyWasSet st' = fTimeUncertaintyWasSet st)"
      by (intro exI [of _ st'] exI [of _ zs]) auto
  }
  {
    assume h: "length xs < sum_list sizes \<and> length sizes \<noteq> 1"
    then have nl: "\<not> sum_list sizes < length xs" by simp
    from active fl h nl
    show "\<exists>st'. UpdateUncertainty ext elapsedTime sizes st = Some (InconsistentState, st')"
      by (simp add: UpdateUncertainty_def Let_def)
  }
  {
    assume h: "sum_list sizes < length xs \<and> sizes \<noteq> [] \<and> NewHandle_ok ext 0 \<and> NewHandle_ok ext 1"
    then have ok: "sizes \<noteq> []" "NewHandle_ok ext 0" "NewHandle_ok ext 1" by simp_all
    from h have ng: "\<not> length xs < sum_list sizes" by simp
    from active fl h ng
    have "UpdateUncertainty ext elapsedTime sizes st = Some (finish_update ext elapsedTime sizes True st)"
      by (simp add: UpdateUncertainty_def)
    with finish_update_reinit [OF ok, of elapsedTime st]
    show "\<exists>st' ys. UpdateUncertainty ext elapsedTime sizes st = Some (noErr, st')
               \<and> fWindUncertaintyList st' = Some ys \<and> length ys = sum_list sizes
               \<and> fLESetSizes st' = Some (fst (offsets 0 sizes))
               \<and> fTimeUncertaintyWasSet st' = elapsedTime
               \<and> (\<forall>r\<in>set ys. is_bounded_draw ext st' r)"
      by auto
  }
qed


lemma sampleBounded_steady_accept:
  "\<bar>fSigmaTheta st\<bar> \<le> fMaxAngle st \<Longrightarrow>
   sampleBounded steady_externals st = ((0, 1), st\<lparr>randPos := randPos st + 2\<rparr>)"
  by (simp add: sampleBounded_def rndv_steady eval_nat_numeral TermsLessThanMax_def)

lemma rndv_gusty: "rndv gusty_externals st = ((0, 3), st\<lparr>randPos := randPos st + 2\<rparr>)"
  by (simp add: rndv_def gusty_externals_def Let_def sqrt_9)

lemma sampleBounded_gusty_accept:
  "\<bar>fSigmaTheta st * 3\<bar> \<le> fMaxAngle st \<Longrightarrow>
   sampleBounded gusty_externals st = ((0, 3), st\<lparr>randPos := randPos st + 2\<rparr>)"
  by (simp add: sampleBounded_def rndv_gusty eval_nat_numeral TermsLessThanMax_def)

lemma sqrt_100: "sqrt 100 = 10" and sqrt_10000: "sqrt 10000 = 100"
  by (rule real_sqrt_unique; simp)+

text \<open>
  C1: the code at a failing input. With two sets, five stored draws and the target sizes
  2 and 4, the grow block resizes the draw array to six elements and then returns
  \<^verbatim>\<open>InconsistentState\<close>: the store is left with its two handles, six elements long, the
  last one not initialised.
\<close>

theorem UpdateUncertainty_grow_abort_leaves_resized:
  "UpdateUncertainty steady_externals 16 [2, 4] mover_two_sets
     = Some (InconsistentState,
             mover_two_sets\<lparr>fWindUncertaintyList := Some (five_draws @ [uninitialised steady_externals])\<rparr>)"
  by (simp add: UpdateUncertainty_def reinit_flags_def mover_two_sets_def Init_mover_def five_draws_def
      SetHandleSize_def Let_def)

text \<open>
  C2: the code at a failing input. A store of one draw grows to two at elapsed time
  10000, where \<open>sigmaTheta\<close> becomes 273/25. The new entry is the first draw (0, 3): it
  was tested against the \<open>sigmaTheta\<close> of the previous step, 0, and does not satisfy the
  bound of 30 degrees under the \<open>sigmaTheta\<close> of this step.
\<close>

theorem UpdateUncertainty_grow_uses_stale_sigma:
  "\<exists>st'. UpdateUncertainty gusty_externals 10000 [2] mover_one = Some (noErr, st')
      \<and> fWindUncertaintyList st' = Some [\<lparr>randCos = 0, randSin = 0\<rparr>, \<lparr>randCos = 0, randSin = 3\<rparr>]
      \<and> rndv_calls mover_one st' = 1
      \<and> fSigmaTheta mover_one = 0 \<and> fSigmaTheta st' = 273 / 25 \<and> fMaxAngle st' = 30
      \<and> \<not> accepts st' (0, 3)"
proof -
  let ?st1 = "mover_one\<lparr>fWindUncertaintyList := Some [\<lparr>randCos = 0, randSin = 0\<rparr>, uninitialised gusty_externals]\<rparr>"
  let ?g = "mover_one\<lparr>fWindUncertaintyList := Some [\<lparr>randCos = 0, randSin = 0\<rparr>, \<lparr>randCos = 0, randSin = 3\<rparr>],
                      randPos := 2\<rparr>"
  have fl: "reinit_flags 10000 [2] mover_one = Some (False, True, 2, 1)"
    by (simp add: reinit_flags_def mover_one_def Init_mover_def Let_def)
  have a: "\<bar>fSigmaTheta ?st1 * 3\<bar> \<le> fMaxAngle ?st1"
    by (simp add: mover_one_def Init_mover_def)
  have g: "fill_draws gusty_externals 1 1 ?st1 = ?g"
    using sampleBounded_gusty_accept [OF a] by (simp add: mover_one_def Init_mover_def)
  have u: "UpdateUncertainty gusty_externals 10000 [2] mover_one = Some (noErr, update_sigmas 10000 ?g)"
    using fl g
    by (simp add: UpdateUncertainty_def finish_update_def update_sigmas_def SetHandleSize_def Let_def
        mover_one_def Init_mover_def)
  have s: "fSigmaTheta (update_sigmas 10000 ?g) = 273 / 25"
    by (simp add: update_sigmas_def mover_one_def Init_mover_def Let_def sqrt_100 sqrt_10000)
  have m: "fMaxAngle (update_sigmas 10000 ?g) = 30" "fMaxSpeed (update_sigmas 10000 ?g) = 30"
    by (simp_all add: update_sigmas_def mover_one_def Init_mover_def Let_def)
  have "\<not> accepts (update_sigmas 10000 ?g) (0, 3)"
    by (simp add: accepts_def TermsLessThanMax_def s m)
  moreover have "fWindUncertaintyList (update_sigmas 10000 ?g) = Some [\<lparr>randCos = 0, randSin = 0\<rparr>, \<lparr>randCos = 0, randSin = 3\<rparr>]"
    "rndv_calls mover_one (update_sigmas 10000 ?g) = 1" "fSigmaTheta mover_one = 0"
    by (simp_all add: update_sigmas_def rndv_calls_def mover_one_def Init_mover_def Let_def)
  ultimately show ?thesis using u s m by blast
qed


lemma mover_five_store:
  "fWindUncertaintyList mover_five = Some five_draws" "fLESetSizes mover_five = Some [0]"
  "fTimeUncertaintyWasSet mover_five = 0" "fUncertainStartTime mover_five = 0"
  "fDuration mover_five = 10800" "length five_draws = 5"
  by (simp_all add: mover_five_def Init_mover_def five_draws_def)

lemma steady_allocates: "NewHandle_ok steady_externals k"
  by (simp add: steady_externals_def)

text \<open>
  C9, as the claim states it, fails: with one set of five stored draws and a target of
  three, none of the four conditions of the claim holds and the store is reinitialised.
\<close>

theorem UpdateUncertainty_reinit_on_larger_store:
  "reinit_flags 16 [3] mover_five = Some (True, False, 3, 5)
   \<and> fWindUncertaintyList mover_five = Some five_draws \<and> fLESetSizes mover_five = Some [0]
   \<and> \<not> 16 < fTimeUncertaintyWasSet mover_five
   \<and> length [3::nat] = length [0::nat] \<and> [0::nat] ! 0 = sum_list (take 0 [3])
   \<and> (\<exists>st' ys. UpdateUncertainty steady_externals 16 [3] mover_five = Some (noErr, st')
         \<and> fWindUncertaintyList st' = Some ys \<and> length ys = 3 \<and> fTimeUncertaintyWasSet st' = 16)"
proof -
  have fl: "reinit_flags 16 [3] mover_five = Some (True, False, 3, 5)"
    by (simp add: reinit_flags_def mover_five_store Let_def)
  then have "UpdateUncertainty steady_externals 16 [3] mover_five
               = Some (finish_update steady_externals 16 [3] True mover_five)"
    by (simp add: UpdateUncertainty_def mover_five_store)
  moreover have "[3::nat] \<noteq> []" by simp
  from finish_update_reinit [OF this steady_allocates steady_allocates, of 16 mover_five]
  obtain st' ys where "finish_update steady_externals 16 [3] True mover_five = (noErr, st')"
    "fWindUncertaintyList st' = Some ys" "length ys = sum_list [3]" "fTimeUncertaintyWasSet st' = 16"
    by blast
  ultimately have "\<exists>st' ys. UpdateUncertainty steady_externals 16 [3] mover_five = Some (noErr, st')
         \<and> fWindUncertaintyList st' = Some ys \<and> length ys = 3 \<and> fTimeUncertaintyWasSet st' = 16"
    by auto
  with fl show ?thesis by (simp add: mover_five_store)
qed

theorem UpdateUncertainty_reinit_witness:
  "fUncertainStartTime Init_mover \<le> 16
   \<and> reinit_flags 16 [2] Init_mover = Some (True, False, 0, 0)
   \<and> fWindUncertaintyList Init_mover = None
   \<and> (\<exists>st' ys. UpdateUncertainty steady_externals 16 [2] Init_mover = Some (noErr, st')
         \<and> fLESetSizes st' = Some [0] \<and> fWindUncertaintyList st' = Some ys \<and> length ys = 2
         \<and> fTimeUncertaintyWasSet st' = 16)
   \<and> fUncertainStartTime mover_five \<le> 16
   \<and> reinit_flags 16 [5] mover_five = Some (False, False, 5, 5)
   \<and> UpdateUncertainty steady_externals 16 [5] mover_five = Some (noErr, update_sigmas 16 mover_five)"
proof -
  have a: "fUncertainStartTime Init_mover \<le> 16" "fWindUncertaintyList Init_mover = None"
    by (simp_all add: Init_mover_def)
  have fa: "reinit_flags 16 [2] Init_mover = Some (True, False, 0, 0)"
    by (simp add: reinit_flags_def Init_mover_def Let_def)
  have ha: "True \<and> \<not> (False \<and> length [2::nat] \<noteq> 1) \<and> [2::nat] \<noteq> []
              \<and> NewHandle_ok steady_externals 0 \<and> NewHandle_ok steady_externals 1"
    by (simp add: steady_allocates)
  from UpdateUncertainty_reinit [OF a(1) fa, of steady_externals, THEN conjunct2, THEN conjunct1, rule_format, OF ha]
  have ra: "\<exists>st' ys. UpdateUncertainty steady_externals 16 [2] Init_mover = Some (noErr, st')
         \<and> fLESetSizes st' = Some [0] \<and> fWindUncertaintyList st' = Some ys \<and> length ys = 2
         \<and> fTimeUncertaintyWasSet st' = 16"
    by auto
  have b: "fUncertainStartTime mover_five \<le> 16"
    by (simp add: mover_five_store)
  have fb: "reinit_flags 16 [5] mover_five = Some (False, False, 5, 5)"
    by (simp add: reinit_flags_def mover_five_store Let_def)
  have hb: "\<not> False \<and> \<not> False \<and> real 16 < real (fTimeUncertaintyWasSet mover_five) + fDuration mover_five"
    by (simp add: mover_five_store)
  from UpdateUncertainty_reinit [OF b fb, of steady_externals, THEN conjunct2, THEN conjunct2, rule_format, OF hb]
  have rb: "UpdateUncertainty steady_externals 16 [5] mover_five = Some (noErr, update_sigmas 16 mover_five)" .
  from a fa ra b fb rb show ?thesis by blast
qed

text \<open>
  C4, as the claim states it, fails: with five stored draws and a target of four, under
  no reinit condition of the claim, the step does not return \<^verbatim>\<open>InconsistentState\<close>; it
  succeeds with a new store of four draws.
\<close>

theorem UpdateUncertainty_larger_store_not_refused:
  "fUncertainStartTime mover_five \<le> 0
   \<and> fWindUncertaintyList mover_five = Some five_draws \<and> fLESetSizes mover_five = Some [0]
   \<and> \<not> 0 < fTimeUncertaintyWasSet mover_five
   \<and> length [4::nat] = length [0::nat] \<and> [0::nat] ! 0 = sum_list (take 0 [4])
   \<and> sum_list [4] < length five_draws
   \<and> (\<exists>st' ys. UpdateUncertainty steady_externals 0 [4] mover_five = Some (noErr, st')
         \<and> fWindUncertaintyList st' = Some ys \<and> length ys = 4)"
proof -
  have fl: "reinit_flags 0 [4] mover_five = Some (True, False, 4, 5)"
    by (simp add: reinit_flags_def mover_five_store Let_def)
  then have "UpdateUncertainty steady_externals 0 [4] mover_five
               = Some (finish_update steady_externals 0 [4] True mover_five)"
    by (simp add: UpdateUncertainty_def mover_five_store)
  moreover have "[4::nat] \<noteq> []" by simp
  from finish_update_reinit [OF this steady_allocates steady_allocates, of 0 mover_five]
  obtain st' ys where "finish_update steady_externals 0 [4] True mover_five = (noErr, st')"
    "fWindUncertaintyList st' = Some ys" "length ys = sum_list [4]"
    by blast
  ultimately have "\<exists>st' ys. UpdateUncertainty steady_externals 0 [4] mover_five = Some (noErr, st')
         \<and> fWindUncertaintyList st' = Some ys \<and> length ys = 4"
    by auto
  then show ?thesis by (simp add: mover_five_store)
qed

theorem UpdateUncertainty_total_mismatch_witness:
  "fUncertainStartTime mover_five \<le> 16
   \<and> fWindUncertaintyList mover_five = Some five_draws \<and> fLESetSizes mover_five = Some [0]
   \<and> \<not> 16 < fTimeUncertaintyWasSet mover_five \<and> length [7::nat] = length [0::nat]
   \<and> sum_list [7] \<noteq> length five_draws
   \<and> (\<exists>st' ys. UpdateUncertainty steady_externals 16 [7] mover_five = Some (noErr, st')
         \<and> fWindUncertaintyList st' = Some ys \<and> length ys = 7 \<and> fLESetSizes st' = Some [0]
         \<and> take 5 ys = five_draws \<and> fTimeUncertaintyWasSet st' = 0)
   \<and> fWindUncertaintyList mover_two_sets = Some five_draws \<and> fLESetSizes mover_two_sets = Some [0, 2]
   \<and> sum_list [2, 4] \<noteq> length five_draws
   \<and> (\<exists>st'. UpdateUncertainty steady_externals 16 [2, 4] mover_two_sets = Some (InconsistentState, st'))
   \<and> sum_list [3] \<noteq> length five_draws
   \<and> (\<exists>st' ys. UpdateUncertainty steady_externals 16 [3] mover_five = Some (noErr, st')
         \<and> fWindUncertaintyList st' = Some ys \<and> length ys = 3 \<and> fLESetSizes st' = Some [0]
         \<and> fTimeUncertaintyWasSet st' = 16)"
proof -
  note t = UpdateUncertainty_total_mismatch
  have five: "fUncertainStartTime mover_five \<le> 16" "fWindUncertaintyList mover_five = Some five_draws"
    "fLESetSizes mover_five = Some [0]" "\<not> 16 < fTimeUncertaintyWasSet mover_five"
    by (simp_all add: mover_five_store)
  have two: "fUncertainStartTime mover_two_sets \<le> 16" "fWindUncertaintyList mover_two_sets = Some five_draws"
    "fLESetSizes mover_two_sets = Some [0, 2]" "\<not> 16 < fTimeUncertaintyWasSet mover_two_sets"
    by (simp_all add: mover_two_sets_def Init_mover_def)
  have c7: "length [7::nat] = length [0::nat]" "\<forall>i<length [0::nat]. [0::nat] ! i = sum_list (take i [7])"
    "sum_list [7] \<noteq> length five_draws"
    by (simp_all add: mover_five_store)
  have c3: "length [3::nat] = length [0::nat]" "\<forall>i<length [0::nat]. [0::nat] ! i = sum_list (take i [3])"
    "sum_list [3] \<noteq> length five_draws"
    by (simp_all add: mover_five_store)
  have c24: "length [2, 4::nat] = length [0, 2::nat]"
    "\<forall>i<length [0, 2::nat]. [0, 2::nat] ! i = sum_list (take i [2, 4])"
    "sum_list [2, 4] \<noteq> length five_draws"
    by (simp_all add: mover_five_store less_Suc_eq)
  have h1: "length five_draws < sum_list [7] \<and> length [7::nat] = 1"
    by (simp add: mover_five_store)
  from t [OF five c7, of steady_externals, THEN conjunct1, rule_format, OF h1]
  have r1: "\<exists>st' ys. UpdateUncertainty steady_externals 16 [7] mover_five = Some (noErr, st')
         \<and> fWindUncertaintyList st' = Some ys \<and> length ys = 7 \<and> fLESetSizes st' = Some [0]
         \<and> take 5 ys = five_draws \<and> fTimeUncertaintyWasSet st' = 0"
    by (auto simp: mover_five_store)
  have h2: "length five_draws < sum_list [2, 4] \<and> length [2, 4::nat] \<noteq> 1"
    by (simp add: mover_five_store)
  from t [OF two c24, of steady_externals, THEN conjunct2, THEN conjunct1, rule_format, OF h2]
  have r2: "\<exists>st'. UpdateUncertainty steady_externals 16 [2, 4] mover_two_sets = Some (InconsistentState, st')" .
  have h3: "sum_list [3] < length five_draws \<and> [3::nat] \<noteq> []
              \<and> NewHandle_ok steady_externals 0 \<and> NewHandle_ok steady_externals 1"
    by (simp add: mover_five_store steady_allocates)
  from t [OF five c3, of steady_externals, THEN conjunct2, THEN conjunct2, rule_format, OF h3]
  have r3: "\<exists>st' ys. UpdateUncertainty steady_externals 16 [3] mover_five = Some (noErr, st')
         \<and> fWindUncertaintyList st' = Some ys \<and> length ys = 3 \<and> fLESetSizes st' = Some [0]
         \<and> fTimeUncertaintyWasSet st' = 16"
    by auto
  from five two c7(1,3) c24(3) c3(3) r1 r2 r3 show ?thesis by blast
qed

end
